theory Spec2Isabelle
  imports Complex_Main "HOL-Library.Sublist"
begin

section \<open>Characters and strings\<close>

text \<open>
  The ingestion agent of \<^verbatim>\<open>mem1.py\<close> works on Python \<^verbatim>\<open>str\<close> values.  They are
  modelled as \<^typ>\<open>string\<close>, every \<^typ>\<open>char\<close> standing for the code point of the
  same number (the Latin-1 range, which holds ASCII).  The character classes
  below are the ones Python's \<^verbatim>\<open>str.isspace\<close>, \<^verbatim>\<open>str.isalnum\<close>, \<^verbatim>\<open>str.lower\<close>
  and the \<^verbatim>\<open>re\<close> classes \<^verbatim>\<open>\s\<close>, \<^verbatim>\<open>\d\<close>, \<^verbatim>\<open>\w\<close> have on these code points.
\<close>

definition is_space :: "char \<Rightarrow> bool" where
  "is_space c = (let n = (of_char c :: nat) in
     (9 \<le> n \<and> n \<le> 13) \<or> (28 \<le> n \<and> n \<le> 32) \<or> n = 133 \<or> n = 160)"

definition is_digit :: "char \<Rightarrow> bool" where
  "is_digit c = (let n = (of_char c :: nat) in 48 \<le> n \<and> n \<le> 57)"





definition py_lower :: "char \<Rightarrow> char" where
  "py_lower c = (let n = (of_char c :: nat) in
     if (65 \<le> n \<and> n \<le> 90) \<or> (192 \<le> n \<and> n \<le> 222 \<and> n \<noteq> 215)
     then char_of (n + 32) else c)"

definition lower :: "string \<Rightarrow> string" where
  "lower s = map py_lower s"

text \<open>\<^verbatim>\<open>s.strip()\<close>: the whitespace at both ends goes.\<close>

definition strip :: "string \<Rightarrow> string" where
  "strip s = rev (dropWhile is_space (rev (dropWhile is_space s)))"

text \<open>\<^verbatim>\<open>p in t\<close> on strings: \<open>p\<close> occurs in \<open>t\<close> as a contiguous piece.\<close>

fun contains :: "string \<Rightarrow> string \<Rightarrow> bool" where
  "contains [] p = (p = [])"
| "contains (c # t) p = (prefix p (c # t) \<or> contains t p)"

text \<open>\<^verbatim>\<open>s.zfill(w)\<close>, on the digit strings the module gives it.\<close>

definition zfill :: "nat \<Rightarrow> string \<Rightarrow> string" where
  "zfill w s = replicate (w - length s) CHR ''0'' @ s"

text \<open>The decimal digits of a natural number.\<close>

definition digit_of :: "nat \<Rightarrow> char" where
  "digit_of n = char_of (48 + n)"

function dec :: "nat \<Rightarrow> string" where
  "dec n = (if n < 10 then [digit_of n] else dec (n div 10) @ [digit_of (n mod 10)])"
  by pat_completeness auto
termination
  by (relation "measure id") auto

declare dec.simps [simp del]


section \<open>Field normalizers\<close>

subsection \<open>\<^verbatim>\<open>_normalize_mobile\<close>\<close>

text \<open>
  \<^verbatim>\<open>re.sub(r'\D', '', str(mobile))\<close> keeps the digit characters in their order;
  \<^verbatim>\<open>digits[-10:]\<close> is evaluated only when there are more than ten of them.
\<close>

definition normalize_mobile :: "string \<Rightarrow> string" where
  "normalize_mobile mobile =
     (if mobile = [] then []
      else let digits = filter is_digit mobile in
        if length digits > 10 then drop (length digits - 10) digits else digits)"

subsection \<open>\<^verbatim>\<open>_clean_text\<close>\<close>









section \<open>The canonical complaint record\<close>

text \<open>
  The dictionary of \<^verbatim>\<open>_get_standard_schema\<close>, one record per nested dictionary.  A
  slot that holds \<^verbatim>\<open>None\<close> or a string is a \<^typ>\<open>string option\<close>; the two amounts are
  Python floats, modelled by the rational number they stand for.  Nested keys
  carry a prefix where the same key occurs at two levels (\<^verbatim>\<open>district\<close>, \<^verbatim>\<open>status\<close>,
  \<^verbatim>\<open>bank\<close>).
\<close>

record address =
  addr_street :: "string option"
  addr_house_no :: "string option"
  addr_colony :: "string option"
  addr_village_town :: "string option"
  addr_pincode :: "string option"
  addr_police_station :: "string option"
  addr_district :: "string option"
  addr_state :: "string option"

record complainant =
  cd_name :: "string option"
  cd_mobile :: "string option"
  cd_email :: "string option"
  cd_address :: address

record crime =
  cr_complaint_type :: "string option"
  cr_category :: "string option"
  cr_sub_category :: "string option"
  cr_description :: "string option"

record financial =
  total_fraud_amount :: rat
  currency :: string

text \<open>
  A transaction and a bank action are dictionaries whose keys depend on the
  pattern that found them: a key that is absent is \<open>None\<close>.
\<close>

record transaction =
  tx_bank :: "string option"
  tx_account_number :: "string option"
  tx_transaction_id :: "string option"
  tx_amount :: rat
  transaction_date :: "string option"
  tx_status :: string

record action =
  action_type :: string
  beneficiary_bank :: "string option"
  act_bank :: "string option"
  act_account_number :: "string option"
  act_amount :: "rat option"
  act_status :: string
  remarks :: "string option"

record metadata =
  processing_timestamp :: "string option"
  data_quality_score :: rat
  validation_status :: "string option"
  duplicate_flag :: bool
  validation_warnings :: "string list"

record complaint =
  complaint_id :: "string option"
  acknowledgement_number :: "string option"
  date_time :: "string option"
  incident_datetime :: "string option"
  complaint_datetime :: "string option"
  complainant_name :: "string option"
  district :: "string option"
  crime_type :: "string option"
  platform :: "string option"
  amount_lost :: rat
  status :: "string option"
  complainant_details :: complainant
  crime_details :: crime
  financial_details :: financial
  transactions :: "transaction list"
  actions_taken :: "action list"
  source_file :: "string option"
  meta :: metadata

definition get_standard_schema :: complaint where
  "get_standard_schema =
     \<lparr>complaint_id = None, acknowledgement_number = None, date_time = None,
      incident_datetime = None, complaint_datetime = None, complainant_name = None,
      district = None, crime_type = None, platform = None, amount_lost = 0,
      status = Some ''Under Process'',
      complainant_details =
        \<lparr>cd_name = None, cd_mobile = None, cd_email = None,
         cd_address =
           \<lparr>addr_street = None, addr_house_no = None, addr_colony = None,
            addr_village_town = None, addr_pincode = None, addr_police_station = None,
            addr_district = None, addr_state = None\<rparr>\<rparr>,
      crime_details =
        \<lparr>cr_complaint_type = None, cr_category = None, cr_sub_category = None,
         cr_description = None\<rparr>,
      financial_details = \<lparr>total_fraud_amount = 0, currency = ''INR''\<rparr>,
      transactions = [], actions_taken = [], source_file = None,
      meta =
        \<lparr>processing_timestamp = None, data_quality_score = 0, validation_status = None,
         duplicate_flag = False, validation_warnings = []\<rparr>\<rparr>"


section \<open>Python values, truth and printing\<close>

text \<open>
  The values the validator and the fingerprint look at: \<^verbatim>\<open>None\<close>, a string or a
  float.  \<open>truthy\<close> is the truth value Python gives them in a condition.
\<close>

datatype pyval = PyNone | PyStr string | PyFloat rat

fun truthy :: "pyval \<Rightarrow> bool" where
  "truthy PyNone = False"
| "truthy (PyStr s) = (s \<noteq> [])"
| "truthy (PyFloat x) = (x \<noteq> 0)"

definition of_opt :: "string option \<Rightarrow> pyval" where
  "of_opt v = (case v of None \<Rightarrow> PyNone | Some s \<Rightarrow> PyStr s)"

text \<open>
  Two library functions are parameters of the model: the digits Python prints for
  a float other than zero, and the MD5 digest of \<^verbatim>\<open>hashlib\<close>.  Zero prints as
  \<^verbatim>\<open>0.0\<close>.
\<close>

record pylib =
  float_repr :: "rat \<Rightarrow> string"
  md5_hexdigest :: "string \<Rightarrow> string"

definition float_str :: "pylib \<Rightarrow> rat \<Rightarrow> string" where
  "float_str L x = (if x = 0 then ''0.0'' else float_repr L x)"

fun py_str :: "pylib \<Rightarrow> pyval \<Rightarrow> string" where
  "py_str L PyNone = ''None''"
| "py_str L (PyStr s) = s"
| "py_str L (PyFloat x) = float_str L x"

text \<open>
  \<^verbatim>\<open>round(x, 2)\<close>: to the nearest hundredth, a tie going to the even neighbour.
\<close>

definition round_half_even :: "rat \<Rightarrow> int" where
  "round_half_even y =
     (let f = \<lfloor>y\<rfloor>; d = y - of_int f in
      if d < 1 / 2 then f
      else if 1 / 2 < d then f + 1
      else if even f then f else f + 1)"

definition round2 :: "rat \<Rightarrow> rat" where
  "round2 x = of_int (round_half_even (x * 100)) / 100"


section \<open>Dates and platforms\<close>

subsection \<open>\<^verbatim>\<open>_normalize_date\<close>\<close>

text \<open>
  What \<^verbatim>\<open>dateutil.parser.parse\<close> returns: a date and a time of day.  The parser
  itself is a library function and a parameter of \<open>normalize_date\<close>; \<open>None\<close> stands
  for its raising.  (The module calls it with \<^verbatim>\<open>dayfirst=True\<close>; python-dateutil then
  reads \<^verbatim>\<open>2024-01-05\<close> as the first of May, and \<^verbatim>\<open>2024-01-15\<close> as the fifteenth of
  January.)
\<close>

record datetime =
  dt_year :: nat
  dt_month :: nat
  dt_day :: nat
  dt_hour :: nat
  dt_minute :: nat
  dt_second :: nat

text \<open>
  \<^verbatim>\<open>strftime('%Y-%m-%d')\<close> and \<^verbatim>\<open>strftime('%Y-%m-%d %H:%M:%S')\<close>.  Month, day, hour,
  minute and second are printed on two digits; the year is printed as the C
  library prints it, without leading zeros, so on four digits from the year 1000
  on (the year 99 gives \<^verbatim>\<open>99-01-15\<close>).
\<close>

definition strftime_date :: "datetime \<Rightarrow> string" where
  "strftime_date dt =
     dec (dt_year dt) @ ''-'' @ zfill 2 (dec (dt_month dt)) @ ''-''
     @ zfill 2 (dec (dt_day dt))"

definition strftime_datetime :: "datetime \<Rightarrow> string" where
  "strftime_datetime dt =
     strftime_date dt @ '' '' @ zfill 2 (dec (dt_hour dt)) @ '':''
     @ zfill 2 (dec (dt_minute dt)) @ '':'' @ zfill 2 (dec (dt_second dt))"

text \<open>\<^verbatim>\<open>parsed_date.hour or parsed_date.minute or parsed_date.second\<close>.\<close>

definition has_time :: "datetime \<Rightarrow> bool" where
  "has_time dt = (dt_hour dt \<noteq> 0 \<or> dt_minute dt \<noteq> 0 \<or> dt_second dt \<noteq> 0)"

text \<open>
  The two patterns of the fallback.  \<open>digits_at n s\<close> reads exactly \<open>n\<close> digits at
  the head of \<open>s\<close>; a group \<^verbatim>\<open>\d{1,2}\<close> tries two digits before one, an optional
  group is tried before it is skipped, and \<^verbatim>\<open>re.search\<close> takes the first position
  where the pattern matches.
\<close>

definition digits_at :: "nat \<Rightarrow> string \<Rightarrow> (string \<times> string) option" where
  "digits_at n s =
     (if n \<le> length s \<and> list_all is_digit (take n s) then Some (take n s, drop n s)
      else None)"

definition char_at :: "string \<Rightarrow> string \<Rightarrow> string option" where
  "char_at cs s =
     (case s of [] \<Rightarrow> None | c # r \<Rightarrow> if c \<in> set cs then Some r else None)"

text \<open>\<^verbatim>\<open>(\d{1,2})[/\-](\d{1,2})[/\-](\d{4})\<close> at the head of \<open>s\<close>, the groups of given lengths.\<close>

definition dmy_with :: "nat \<Rightarrow> nat \<Rightarrow> string \<Rightarrow> (string \<times> string \<times> string) option" where
  "dmy_with a b s =
     (case digits_at a s of None \<Rightarrow> None | Some (day, r1) \<Rightarrow>
      case char_at ''/-'' r1 of None \<Rightarrow> None | Some r2 \<Rightarrow>
      case digits_at b r2 of None \<Rightarrow> None | Some (month, r3) \<Rightarrow>
      case char_at ''/-'' r3 of None \<Rightarrow> None | Some r4 \<Rightarrow>
      case digits_at 4 r4 of None \<Rightarrow> None | Some (year, r5) \<Rightarrow>
      Some (day, month, year))"

fun first_match :: "'a option list \<Rightarrow> 'a option" where
  "first_match [] = None"
| "first_match (None # ms) = first_match ms"
| "first_match (Some m # ms) = Some m"

definition match_dmy :: "string \<Rightarrow> (string \<times> string \<times> string) option" where
  "match_dmy s = first_match [dmy_with 2 2 s, dmy_with 2 1 s, dmy_with 1 2 s, dmy_with 1 1 s]"

fun search_dmy :: "string \<Rightarrow> (string \<times> string \<times> string) option" where
  "search_dmy [] = match_dmy []"
| "search_dmy (c # cs) =
     (case match_dmy (c # cs) of Some m \<Rightarrow> Some m | None \<Rightarrow> search_dmy cs)"

text \<open>\<^verbatim>\<open>(\d{1,2}):(\d{2})(?::(\d{2}))?\<close> at the head of \<open>s\<close>.\<close>

definition time_with :: "nat \<Rightarrow> string \<Rightarrow> (string \<times> string \<times> string option) option" where
  "time_with a s =
     (case digits_at a s of None \<Rightarrow> None | Some (hour, r1) \<Rightarrow>
      case char_at '':'' r1 of None \<Rightarrow> None | Some r2 \<Rightarrow>
      case digits_at 2 r2 of None \<Rightarrow> None | Some (minute, r3) \<Rightarrow>
      (case char_at '':'' r3 of
         None \<Rightarrow> Some (hour, minute, None)
       | Some r4 \<Rightarrow>
           (case digits_at 2 r4 of
              None \<Rightarrow> Some (hour, minute, None)
            | Some (second, r5) \<Rightarrow> Some (hour, minute, Some second))))"

definition match_time :: "string \<Rightarrow> (string \<times> string \<times> string option) option" where
  "match_time s = first_match [time_with 2 s, time_with 1 s]"

fun search_time :: "string \<Rightarrow> (string \<times> string \<times> string option) option" where
  "search_time [] = match_time []"
| "search_time (c # cs) =
     (case match_time (c # cs) of Some m \<Rightarrow> Some m | None \<Rightarrow> search_time cs)"

definition normalize_date :: "(string \<Rightarrow> datetime option) \<Rightarrow> string \<Rightarrow> string option" where
  "normalize_date parse date_str =
     (if date_str = [] then None
      else
        (case parse date_str of
           Some parsed_date \<Rightarrow>
             if has_time parsed_date then Some (strftime_datetime parsed_date)
             else Some (strftime_date parsed_date)
         | None \<Rightarrow>
             (case search_dmy date_str of
                Some (day, month, year) \<Rightarrow>
                  (case search_time date_str of
                     Some (hour, minute, second) \<Rightarrow>
                       Some (year @ ''-'' @ zfill 2 month @ ''-'' @ zfill 2 day @ '' ''
                             @ zfill 2 hour @ '':'' @ minute @ '':''
                             @ (case second of Some sec \<Rightarrow> sec | None \<Rightarrow> ''00''))
                   | None \<Rightarrow> Some (year @ ''-'' @ zfill 2 month @ ''-'' @ zfill 2 day))
              | None \<Rightarrow> Some date_str)))"

text \<open>
  The two normalized forms, \<^verbatim>\<open>YYYY-MM-DD\<close> and \<^verbatim>\<open>YYYY-MM-DD HH:MM:SS\<close>, as shapes of
  strings.
\<close>

fun date_form :: "string \<Rightarrow> bool" where
  "date_form [y1, y2, y3, y4, a, m1, m2, b, d1, d2] =
     (is_digit y1 \<and> is_digit y2 \<and> is_digit y3 \<and> is_digit y4 \<and> a = CHR ''-''
      \<and> is_digit m1 \<and> is_digit m2 \<and> b = CHR ''-'' \<and> is_digit d1 \<and> is_digit d2)"
| "date_form s = False"

fun time_form :: "string \<Rightarrow> bool" where
  "time_form [sp, h1, h2, a, m1, m2, b, s1, s2] =
     (sp = CHR '' '' \<and> is_digit h1 \<and> is_digit h2 \<and> a = CHR '':''
      \<and> is_digit m1 \<and> is_digit m2 \<and> b = CHR '':'' \<and> is_digit s1 \<and> is_digit s2)"
| "time_form s = False"

definition datetime_form :: "string \<Rightarrow> bool" where
  "datetime_form s = (date_form (take 10 s) \<and> time_form (drop 10 s))"

text \<open>The number a string of digits stands for, and the fields of a normalized string.\<close>

definition digit_val :: "char \<Rightarrow> nat" where
  "digit_val c = of_char c - 48"

definition num :: "string \<Rightarrow> nat" where
  "num s = foldl (\<lambda>n c. 10 * n + digit_val c) 0 s"

definition year_field :: "string \<Rightarrow> string" where
  "year_field s = take 4 s"

definition month_field :: "string \<Rightarrow> string" where
  "month_field s = take 2 (drop 5 s)"

definition day_field :: "string \<Rightarrow> string" where
  "day_field s = take 2 (drop 8 s)"

definition time_field :: "string \<Rightarrow> string" where
  "time_field s = drop 11 s"

text \<open>The checks of \<^verbatim>\<open>datetime\<close>'s constructor.\<close>

definition is_leap :: "nat \<Rightarrow> bool" where
  "is_leap y = (y mod 4 = 0 \<and> (y mod 100 \<noteq> 0 \<or> y mod 400 = 0))"

definition days_in_month :: "nat \<Rightarrow> nat \<Rightarrow> nat" where
  "days_in_month y m =
     (if m = 2 then (if is_leap y then 29 else 28)
      else if m \<in> set [4, 6, 9, 11] then 30 else 31)"

definition valid_datetime :: "datetime \<Rightarrow> bool" where
  "valid_datetime dt =
     (1 \<le> dt_year dt \<and> dt_year dt \<le> 9999 \<and> 1 \<le> dt_month dt \<and> dt_month dt \<le> 12
      \<and> 1 \<le> dt_day dt \<and> dt_day dt \<le> days_in_month (dt_year dt) (dt_month dt)
      \<and> dt_hour dt \<le> 23 \<and> dt_minute dt \<le> 59 \<and> dt_second dt \<le> 59)"

text \<open>
  What python-dateutil does with a string of one of the two normalized forms when
  it is called as the module calls it, \<^verbatim>\<open>parse(s, dayfirst=True)\<close>.  The year comes
  first and has four digits, so it is taken as the year.  Of the two numbers that
  follow, the second is taken as the month when it is at most 12 (the day-first
  reading), and as the day otherwise.  The values then go through the checks of
  the \<^verbatim>\<open>datetime\<close> constructor, and the parser raises when one fails.  Strings of
  other forms are outside this model; nothing below uses its value on them.
\<close>

definition parse_dayfirst :: "string \<Rightarrow> datetime option" where
  "parse_dayfirst s =
     (if date_form s \<or> datetime_form s then
        (let a = num (month_field s); b = num (day_field s);
             dt = \<lparr>dt_year = num (year_field s),
                   dt_month = (if b \<le> 12 then b else a),
                   dt_day = (if b \<le> 12 then a else b),
                   dt_hour = (if datetime_form s then num (take 2 (drop 11 s)) else 0),
                   dt_minute = (if datetime_form s then num (take 2 (drop 14 s)) else 0),
                   dt_second = (if datetime_form s then num (take 2 (drop 17 s)) else 0)\<rparr>
         in if valid_datetime dt then Some dt else None)
      else None)"

text \<open>A normalized date with its month and day fields exchanged.\<close>

definition swapped :: "string \<Rightarrow> string" where
  "swapped s = year_field s @ ''-'' @ day_field s @ ''-'' @ month_field s"

subsection \<open>\<^verbatim>\<open>_extract_platform\<close>\<close>

text \<open>
  The three entries of the parsed dictionary that \<^verbatim>\<open>_extract_platform\<close> reads.  The
  sub-category may be missing; the two lists are set just before the call.
\<close>

record pdf_data =
  pd_sub_category :: "string option"
  pd_transactions :: "transaction list"
  pd_actions_taken :: "action list"

definition platforms :: "string list" where
  "platforms = [''PhonePe'', ''Google Pay'', ''GPay'', ''Paytm'', ''Amazon Pay'', ''BHIM'']"

text \<open>
  \<^verbatim>\<open>re.search(p, text, re.IGNORECASE)\<close> for a pattern of letters and spaces: \<open>p\<close>
  occurs in the text, case aside.
\<close>

definition re_search_ignorecase :: "string \<Rightarrow> string \<Rightarrow> bool" where
  "re_search_ignorecase p txt = contains (lower txt) (lower p)"

text \<open>The loop over the actions: the first one with a beneficiary bank that is not empty.\<close>

definition platform_of_actions :: "action list \<Rightarrow> string" where
  "platform_of_actions actions =
     (case find (\<lambda>a. truthy (of_opt (beneficiary_bank a))) actions of
        Some a \<Rightarrow> the (beneficiary_bank a)
      | None \<Rightarrow> ''Unknown'')"

text \<open>\<^verbatim>\<open>data.get('sub_category', '')\<close>.\<close>

definition sub_category_of :: "pdf_data \<Rightarrow> string" where
  "sub_category_of data = (case pd_sub_category data of None \<Rightarrow> [] | Some s \<Rightarrow> s)"

definition extract_platform :: "pdf_data \<Rightarrow> string \<Rightarrow> string" where
  "extract_platform data txt =
     (let sub_category = sub_category_of data in
      if contains sub_category ''UPI'' then
        (case find (\<lambda>p. re_search_ignorecase p txt) platforms of
           Some p \<Rightarrow> p
         | None \<Rightarrow> ''UPI'')
      else if contains sub_category ''Card'' then ''Card''
      else if contains sub_category ''Net Banking'' \<or> contains sub_category ''Banking''
      then ''Net Banking''
      else
        (case pd_transactions data of
           first_trans # rest \<Rightarrow>
             (case tx_bank first_trans of
                Some b \<Rightarrow> b
              | None \<Rightarrow> platform_of_actions (pd_actions_taken data))
         | [] \<Rightarrow> platform_of_actions (pd_actions_taken data)))"

text \<open>
  The last two steps in the words of the specification: the bank of the first
  transaction, otherwise the beneficiary bank of the first action, otherwise
  \<^verbatim>\<open>Unknown\<close>.
\<close>

definition spec_first_action :: "action list \<Rightarrow> string" where
  "spec_first_action actions =
     (case actions of
        [] \<Rightarrow> ''Unknown''
      | a # rest \<Rightarrow>
          (case beneficiary_bank a of
             None \<Rightarrow> ''Unknown''
           | Some b \<Rightarrow> if b = [] then ''Unknown'' else b))"

text \<open>
  Two money transfers as \<^verbatim>\<open>_extract_actions_from_pdf\<close> finds them in the lines
  \<^verbatim>\<open>Money Transfer to   12 34\<close> and \<^verbatim>\<open>Money Transfer to HDFC Bank 123456 5,000\<close>:
  the first has an empty beneficiary bank.
\<close>

definition transfer :: "string \<Rightarrow> string \<Rightarrow> rat \<Rightarrow> action" where
  "transfer bank account amount =
     \<lparr>action_type = ''Money Transfer'', beneficiary_bank = Some bank, act_bank = None,
      act_account_number = Some account, act_amount = Some amount,
      act_status = ''transferred'', remarks = None\<rparr>"

definition upi_report :: pdf_data where
  "upi_report =
     \<lparr>pd_sub_category = Some ''UPI Related Frauds'', pd_transactions = [],
      pd_actions_taken = []\<rparr>"

definition two_transfers :: pdf_data where
  "two_transfers =
     \<lparr>pd_sub_category = None, pd_transactions = [],
      pd_actions_taken = [transfer [] ''12'' 34, transfer ''HDFC Bank'' ''123456'' 5000]\<rparr>"


section \<open>\<^verbatim>\<open>_validate_data\<close>\<close>

text \<open>
  The weights are halves, so the two sums of the loop are exact in floating point
  too; the quotient and its product with 100 are computed here in the rationals.
  On each of the 26 sums that can occur, the float computation gives the same
  stored score and the same side of 60.
\<close>

definition critical_fields :: "complaint \<Rightarrow> (string \<times> pyval \<times> rat) list" where
  "critical_fields d =
     [(''complaint_id'', of_opt (complaint_id d), 2),
      (''complainant_name'', of_opt (complainant_name d), 2),
      (''mobile'', of_opt (cd_mobile (complainant_details d)), 3 / 2),
      (''district'', of_opt (district d), 1),
      (''date_time'', of_opt (date_time d), 3 / 2),
      (''crime_type'', of_opt (crime_type d), 3 / 2),
      (''amount_lost'', PyFloat (amount_lost d), 2),
      (''status'', of_opt (status d), 1)]"

text \<open>The condition of the loop body, on the value of one field.\<close>

definition field_filled :: "pylib \<Rightarrow> pyval \<Rightarrow> bool" where
  "field_filled L v =
     (truthy v \<and> strip (py_str L v) \<noteq> []
      \<and> lower (py_str L v) \<notin> set [''none'', ''unknown'', ''0'', ''0.0''])"

text \<open>The loop over the critical fields; the state is \<open>(total_fields, filled_fields)\<close>.\<close>

fun score_loop :: "pylib \<Rightarrow> (string \<times> pyval \<times> rat) list \<Rightarrow> rat \<times> rat \<Rightarrow> rat \<times> rat" where
  "score_loop L [] acc = acc"
| "score_loop L ((field_name, v, weight) # fs) (total_fields, filled_fields) =
     score_loop L fs
       (total_fields + weight,
        if field_filled L v then filled_fields + weight else filled_fields)"

definition quality_score :: "pylib \<Rightarrow> complaint \<Rightarrow> rat" where
  "quality_score L d =
     (let (total_fields, filled_fields) = score_loop L (critical_fields d) (0, 0) in
      if total_fields > 0 then (filled_fields / total_fields) * 100 else 0)"

definition warnings_of :: "complaint \<Rightarrow> string list" where
  "warnings_of d =
     (let mobile = cd_mobile (complainant_details d);
          email = cd_email (complainant_details d);
          amount = amount_lost d
      in (if truthy (of_opt mobile) \<and> length (the mobile) \<noteq> 10
          then [''Mobile number is not 10 digits''] else [])
       @ (if truthy (of_opt email) \<and> \<not> contains (the email) ''@''
          then [''Invalid email format''] else [])
       @ (if amount \<le> 0 then [''Amount lost is zero or negative''] else []))"

definition validate_data :: "pylib \<Rightarrow> complaint \<Rightarrow> complaint" where
  "validate_data L d =
     d\<lparr>meta := (meta d)
        \<lparr>data_quality_score := round2 (quality_score L d),
         validation_status :=
           Some (if quality_score L d \<ge> 60 then ''valid'' else ''incomplete''),
         validation_warnings := warnings_of d\<rparr>\<rparr>"

text \<open>The weight a field adds to \<open>filled_fields\<close>.\<close>

definition weight_if :: "bool \<Rightarrow> rat \<Rightarrow> rat" where
  "weight_if b w = (if b then w else 0)"

text \<open>
  The score in the words of the specification: a field is filled when its value is
  not null, is not empty after trimming, and its lower-case string form is none of
  the four sentinels; the score is a hundred times the weight of the filled fields
  over the weight of all eight, rounded to two decimals.
\<close>

definition spec_filled :: "pylib \<Rightarrow> pyval \<Rightarrow> bool" where
  "spec_filled L v =
     (v \<noteq> PyNone \<and> strip (py_str L v) \<noteq> []
      \<and> lower (py_str L v) \<notin> {''none'', ''unknown'', ''0'', ''0.0''})"

definition spec_weight :: "pylib \<Rightarrow> pyval \<Rightarrow> rat \<Rightarrow> rat" where
  "spec_weight L v w = (if spec_filled L v then w else 0)"

definition spec_score :: "pylib \<Rightarrow> complaint \<Rightarrow> rat" where
  "spec_score L d =
     round2 (100 *
       (spec_weight L (of_opt (complaint_id d)) 2
        + spec_weight L (of_opt (complainant_name d)) 2
        + spec_weight L (of_opt (cd_mobile (complainant_details d))) (3 / 2)
        + spec_weight L (of_opt (district d)) 1
        + spec_weight L (of_opt (date_time d)) (3 / 2)
        + spec_weight L (of_opt (crime_type d)) (3 / 2)
        + spec_weight L (PyFloat (amount_lost d)) 2
        + spec_weight L (of_opt (status d)) 1)
       / (2 + 2 + 3 / 2 + 1 + 3 / 2 + 3 / 2 + 2 + 1))"


section \<open>The deduplication registry\<close>

text \<open>
  \<^verbatim>\<open>self.processed_complaints\<close> is a set of strings; the agent is the only state
  there is, so the functions take the set and \<open>register_complaint\<close> returns the new
  one.
\<close>

definition hash_string :: "pylib \<Rightarrow> complaint \<Rightarrow> string" where
  "hash_string L d =
     py_str L (of_opt (complainant_name d)) @ ''_''
     @ py_str L (of_opt (cd_mobile (complainant_details d))) @ ''_''
     @ py_str L (of_opt (date_time d)) @ ''_''
     @ py_str L (PyFloat (amount_lost d))"

definition complaint_hash :: "pylib \<Rightarrow> complaint \<Rightarrow> string" where
  "complaint_hash L d = md5_hexdigest L (hash_string L d)"

definition is_duplicate :: "pylib \<Rightarrow> string set \<Rightarrow> complaint \<Rightarrow> bool" where
  "is_duplicate L processed_complaints d =
     (if truthy (of_opt (complaint_id d)) \<and> the (complaint_id d) \<in> processed_complaints
      then True
      else if complaint_hash L d \<in> processed_complaints then True
      else False)"

definition register_complaint :: "pylib \<Rightarrow> string set \<Rightarrow> complaint \<Rightarrow> string set" where
  "register_complaint L processed_complaints d =
     (let registered =
            (if truthy (of_opt (complaint_id d))
             then insert (the (complaint_id d)) processed_complaints
             else processed_complaints)
      in insert (complaint_hash L d) registered)"

text \<open>Step 6 of \<^verbatim>\<open>process_file\<close>: the check, the flag, and the registration.\<close>

definition check_duplicates :: "pylib \<Rightarrow> string set \<Rightarrow> complaint \<Rightarrow> complaint \<times> string set" where
  "check_duplicates L processed_complaints validated_data =
     (if is_duplicate L processed_complaints validated_data
      then (validated_data\<lparr>meta := (meta validated_data)\<lparr>duplicate_flag := True\<rparr>\<rparr>,
            processed_complaints)
      else
        (let d = validated_data\<lparr>meta := (meta validated_data)\<lparr>duplicate_flag := False\<rparr>\<rparr>
         in (d, register_complaint L processed_complaints d)))"

text \<open>The keys a first occurrence adds: its identifier, when it has one, and its fingerprint.\<close>

definition registry_keys :: "pylib \<Rightarrow> complaint \<Rightarrow> string set" where
  "registry_keys L d =
     (case complaint_id d of
        None \<Rightarrow> {complaint_hash L d}
      | Some i \<Rightarrow> if i = [] then {complaint_hash L d} else {i, complaint_hash L d})"



section \<open>\<^verbatim>\<open>_flatten_key_fields\<close> and \<^verbatim>\<open>_generate_summary\<close>\<close>

definition flatten_key_fields :: "complaint \<Rightarrow> complaint" where
  "flatten_key_fields d0 =
     (let d1 = (if truthy (of_opt (incident_datetime d0))
                then d0\<lparr>date_time := incident_datetime d0\<rparr>
                else if truthy (of_opt (complaint_datetime d0))
                then d0\<lparr>date_time := complaint_datetime d0\<rparr>
                else d0);
          d2 = (if truthy (of_opt (cd_name (complainant_details d1)))
                then d1\<lparr>complainant_name := cd_name (complainant_details d1)\<rparr>
                else d1);
          d3 = (if truthy (of_opt (addr_district (cd_address (complainant_details d2))))
                then d2\<lparr>district := addr_district (cd_address (complainant_details d2))\<rparr>
                else d2);
          d4 = (if truthy (of_opt (cr_sub_category (crime_details d3)))
                then d3\<lparr>crime_type := cr_sub_category (crime_details d3)\<rparr>
                else if truthy (of_opt (cr_category (crime_details d3)))
                then d3\<lparr>crime_type := cr_category (crime_details d3)\<rparr>
                else d3)
      in if truthy (PyFloat (total_fraud_amount (financial_details d4)))
         then d4\<lparr>amount_lost := total_fraud_amount (financial_details d4)\<rparr>
         else d4)"

record summary =
  sm_complaint_id :: "string option"
  sm_complainant_name :: "string option"
  sm_district :: "string option"
  sm_crime_type :: "string option"
  sm_platform :: "string option"
  sm_amount_lost :: rat
  sm_status :: "string option"
  sm_date_time :: "string option"
  num_transactions :: nat
  num_actions_taken :: nat
  sm_data_quality_score :: rat
  sm_validation_status :: "string option"
  sm_is_duplicate :: bool
  sm_source_file :: "string option"

definition generate_summary :: "complaint \<Rightarrow> summary" where
  "generate_summary d =
     \<lparr>sm_complaint_id = complaint_id d,
      sm_complainant_name = complainant_name d,
      sm_district = district d,
      sm_crime_type = crime_type d,
      sm_platform = platform d,
      sm_amount_lost = amount_lost d,
      sm_status = status d,
      sm_date_time = date_time d,
      num_transactions = length (transactions d),
      num_actions_taken = length (actions_taken d),
      sm_data_quality_score = data_quality_score (meta d),
      sm_validation_status = validation_status (meta d),
      sm_is_duplicate = duplicate_flag (meta d),
      sm_source_file = source_file d\<rparr>"


section \<open>\<^verbatim>\<open>process_file\<close> and \<^verbatim>\<open>batch_process\<close>\<close>

text \<open>
  An exception is the name of its class and its message: what the handler of
  \<^verbatim>\<open>process_file\<close> reads off it with \<^verbatim>\<open>type(e).__name__\<close> and \<^verbatim>\<open>str(e)\<close>.  The values
  are the instances of \<^verbatim>\<open>Exception\<close>.
\<close>

datatype exn = Exn (exn_type: string) (exn_msg: string)

text \<open>
  What lies outside the module is a parameter: the file system, the readers of
  pandas and PyPDF2, the clock, the two library functions above, and the stages
  that rest on them (text extraction, the mapping into the schema, the
  normalization pass).  Each may return or raise.  \<open>'raw\<close> is the type of what a
  loader returns, a data frame or the dictionary parsed from a report.
\<close>

record 'raw world =
  path_exists :: "string \<Rightarrow> bool"
  read_csv :: "string \<Rightarrow> string \<Rightarrow> exn + 'raw"
  read_excel :: "string \<Rightarrow> exn + 'raw"
  read_pdf_text :: "string \<Rightarrow> exn + string"
  parse_pdf_text :: "string \<Rightarrow> exn + 'raw"
  extract_data :: "'raw \<Rightarrow> string \<Rightarrow> exn + complaint"
  clean_and_normalize :: "complaint \<Rightarrow> exn + complaint"
  clock :: "string \<Rightarrow> string"
  lib :: pylib

text \<open>
  \<^verbatim>\<open>Path(p)\<close> on a POSIX system.  The string is cut at the slashes; empty pieces and
  pieces that are a single dot are dropped, so that a trailing slash, a doubled
  slash and \<^verbatim>\<open>./\<close> leave no trace.  The root is \<^verbatim>\<open>/\<close> for a path that starts with
  slashes, \<^verbatim>\<open>//\<close> when it starts with exactly two.  \<open>path_str\<close> is \<^verbatim>\<open>str(Path(p))\<close>,
  \<open>path_name\<close> is \<^verbatim>\<open>Path(p).name\<close> and \<open>path_suffix\<close> is the suffix of a name: it
  starts at the last dot of the name unless that dot is its first or its last
  character.
\<close>

fun split_on :: "char \<Rightarrow> string \<Rightarrow> string list" where
  "split_on sep [] = [[]]"
| "split_on sep (c # cs) =
     (if c = sep then [] # split_on sep cs
      else (case split_on sep cs of [] \<Rightarrow> [[c]] | x # xs \<Rightarrow> (c # x) # xs))"

fun join_with :: "string \<Rightarrow> string list \<Rightarrow> string" where
  "join_with sep [] = []"
| "join_with sep [x] = x"
| "join_with sep (x # y # zs) = x @ sep @ join_with sep (y # zs)"

definition path_root :: "string \<Rightarrow> string" where
  "path_root p =
     (let n = length (takeWhile (\<lambda>c. c = CHR ''/'') p) in
      if n = 0 then [] else if n = 2 then ''//'' else ''/'')"

definition path_parts :: "string \<Rightarrow> string list" where
  "path_parts p = filter (\<lambda>x. x \<noteq> [] \<and> x \<noteq> ''.'') (split_on CHR ''/'' p)"

definition path_str :: "string \<Rightarrow> string" where
  "path_str p =
     (if path_root p = [] \<and> path_parts p = [] then ''.''
      else path_root p @ join_with ''/'' (path_parts p))"

definition path_name :: "string \<Rightarrow> string" where
  "path_name p = (if path_parts p = [] then [] else last (path_parts p))"

definition path_suffix :: "string \<Rightarrow> string" where
  "path_suffix name =
     (let ext = rev (takeWhile (\<lambda>c. c \<noteq> CHR ''.'') (rev name)) in
      if CHR ''.'' \<in> set name \<and> length ext + 1 < length name \<and> ext \<noteq> []
      then CHR ''.'' # ext else [])"

text \<open>
  \<^verbatim>\<open>_load_csv\<close>: the encodings in turn; only a decoding error moves on to the next
  one.
\<close>

fun load_csv_loop :: "'raw world \<Rightarrow> string \<Rightarrow> string list \<Rightarrow> exn + 'raw" where
  "load_csv_loop W file_path [] =
     Inl (Exn ''ValueError'' ''Failed to load CSV with any supported encoding'')"
| "load_csv_loop W file_path (encoding # encodings) =
     (case read_csv W file_path encoding of
        Inr df \<Rightarrow> Inr df
      | Inl e \<Rightarrow>
          if exn_type e = ''UnicodeDecodeError'' then load_csv_loop W file_path encodings
          else Inl e)"

definition load_csv :: "'raw world \<Rightarrow> string \<Rightarrow> exn + 'raw" where
  "load_csv W file_path =
     load_csv_loop W file_path [''utf-8'', ''latin-1'', ''cp1252'', ''iso-8859-1'']"

definition load_excel :: "'raw world \<Rightarrow> string \<Rightarrow> exn + 'raw" where
  "load_excel W file_path =
     (case read_excel W file_path of
        Inr df \<Rightarrow> Inr df
      | Inl e \<Rightarrow> Inl (Exn ''ValueError'' (''Failed to load Excel file: '' @ exn_msg e)))"

definition load_pdf :: "'raw world \<Rightarrow> string \<Rightarrow> exn + 'raw" where
  "load_pdf W file_path =
     (case read_pdf_text W file_path of
        Inl e \<Rightarrow> Inl (Exn ''ValueError'' (''Failed to load PDF file: '' @ exn_msg e))
      | Inr txt \<Rightarrow>
          (case parse_pdf_text W txt of
             Inl e \<Rightarrow> Inl (Exn ''ValueError'' (''Failed to load PDF file: '' @ exn_msg e))
           | Inr data \<Rightarrow> Inr data))"

text \<open>
  Step 1 of \<^verbatim>\<open>process_file\<close>, with the existence check before it.  The argument is
  turned into a \<^verbatim>\<open>Path\<close> first: the file system, the readers and the message of
  \<^verbatim>\<open>FileNotFoundError\<close> see \<open>path_str file_path\<close>.
\<close>

definition load_file :: "'raw world \<Rightarrow> string \<Rightarrow> exn + 'raw" where
  "load_file W file_path =
     (if \<not> path_exists W (path_str file_path)
      then Inl (Exn ''FileNotFoundError'' (''File not found: '' @ path_str file_path))
      else
        (let file_extension = lower (path_suffix (path_name file_path)) in
         if file_extension = ''.csv'' then load_csv W (path_str file_path)
         else if file_extension \<in> set [''.xlsx'', ''.xls'']
         then load_excel W (path_str file_path)
         else if file_extension = ''.pdf'' then load_pdf W (path_str file_path)
         else Inl (Exn ''ValueError'' (''Unsupported file format: '' @ file_extension))))"

text \<open>
  The dictionary \<^verbatim>\<open>process_file\<close> returns: \<^verbatim>\<open>status\<close>, \<^verbatim>\<open>data\<close> and \<^verbatim>\<open>summary\<close>, or
  \<^verbatim>\<open>status\<close>, \<^verbatim>\<open>error\<close> and \<^verbatim>\<open>error_type\<close>.
\<close>

datatype result = Success complaint summary | Failure string string

fun result_status :: "result \<Rightarrow> string" where
  "result_status (Success d sm) = ''success''"
| "result_status (Failure msg ty) = ''error''"


fun error_message :: "result \<Rightarrow> string option" where
  "error_message (Success d sm) = None"
| "error_message (Failure msg ty) = Some msg"

text \<open>The handler: \<^verbatim>\<open>except Exception as e\<close>.\<close>

definition error_result :: "exn \<Rightarrow> result" where
  "error_result e = Failure (exn_msg e) (exn_type e)"

text \<open>Steps 1 to 3, which can raise.\<close>

definition prepare :: "'raw world \<Rightarrow> string \<Rightarrow> exn + complaint" where
  "prepare W file_path =
     (case load_file W file_path of
        Inl e \<Rightarrow> Inl e
      | Inr raw_data \<Rightarrow>
          (case extract_data W raw_data (path_name file_path) of
             Inl e \<Rightarrow> Inl e
           | Inr structured_data \<Rightarrow> clean_and_normalize W structured_data))"

text \<open>
  \<^verbatim>\<open>process_file\<close>: the result, and the registry after the call.
\<close>

definition process_file :: "'raw world \<Rightarrow> string set \<Rightarrow> string \<Rightarrow> result \<times> string set" where
  "process_file W processed_complaints file_path =
     (case prepare W file_path of
        Inl e \<Rightarrow> (error_result e, processed_complaints)
      | Inr cleaned_data \<Rightarrow>
          (let flat = flatten_key_fields cleaned_data;
               validated_data = validate_data (lib W) flat;
               (checked, registry) = check_duplicates (lib W) processed_complaints validated_data;
               final =
                 checked\<lparr>meta := (meta checked)\<lparr>processing_timestamp := Some (clock W file_path)\<rparr>,
                         source_file := Some (path_name file_path)\<rparr>
           in (Success final (generate_summary final), registry)))"

text \<open>Step 7 of \<^verbatim>\<open>process_file\<close>: the timestamp and the source file.\<close>

definition finalize :: "'raw world \<Rightarrow> string \<Rightarrow> complaint \<Rightarrow> complaint" where
  "finalize W file_path checked =
     checked\<lparr>meta := (meta checked)\<lparr>processing_timestamp := Some (clock W file_path)\<rparr>,
             source_file := Some (path_name file_path)\<rparr>"

text \<open>The loop of \<^verbatim>\<open>batch_process\<close>; writing the output files is left out.\<close>

fun process_all :: "'raw world \<Rightarrow> string set \<Rightarrow> string list \<Rightarrow> result list \<times> string set" where
  "process_all W processed_complaints [] = ([], processed_complaints)"
| "process_all W processed_complaints (file_path # file_paths) =
     (let (r, registry) = process_file W processed_complaints file_path;
          (rs, registry') = process_all W registry file_paths
      in (r # rs, registry'))"



fun is_duplicate_result :: "result \<Rightarrow> bool" where
  "is_duplicate_result (Success d sm) = duplicate_flag (meta d)"
| "is_duplicate_result (Failure msg ty) = False"



subsection \<open>The \<^verbatim>\<open>try\<close> block of \<^verbatim>\<open>process_file\<close> with every call allowed to raise\<close>

text \<open>
  \<open>process_file\<close> above fixes steps 4 to 7 to the functions of this module on
  records of the schema, where they return.  The \<^verbatim>\<open>try\<close> block itself does not depend
  on that: every call in it may raise, and what is raised is an instance of
  \<^verbatim>\<open>Exception\<close> or of a class that derives from \<^verbatim>\<open>BaseException\<close> only
  (\<^verbatim>\<open>KeyboardInterrupt\<close>, \<^verbatim>\<open>SystemExit\<close>, \<^verbatim>\<open>GeneratorExit\<close>).
\<close>

datatype pyexc = Exc exn | Base_exc exn

text \<open>
  The calls of the \<^verbatim>\<open>try\<close> block, in the order of the source.  The two methods on the
  registry take the registry; \<^verbatim>\<open>_register_complaint\<close> mutates it and may raise after
  its first \<^verbatim>\<open>add\<close>, so it returns the registry it leaves behind together with the
  exception, if any.
\<close>

record 'raw steps =
  st_exists :: "string \<Rightarrow> pyexc + bool"
  st_load_csv :: "string \<Rightarrow> pyexc + 'raw"
  st_load_excel :: "string \<Rightarrow> pyexc + 'raw"
  st_load_pdf :: "string \<Rightarrow> pyexc + 'raw"
  st_extract_data :: "'raw \<Rightarrow> string \<Rightarrow> pyexc + complaint"
  st_clean_and_normalize :: "complaint \<Rightarrow> pyexc + complaint"
  st_flatten_key_fields :: "complaint \<Rightarrow> pyexc + complaint"
  st_validate_data :: "complaint \<Rightarrow> pyexc + complaint"
  st_is_duplicate :: "string set \<Rightarrow> complaint \<Rightarrow> pyexc + bool"
  st_register_complaint :: "string set \<Rightarrow> complaint \<Rightarrow> pyexc option \<times> string set"
  st_now :: "string \<Rightarrow> pyexc + string"
  st_generate_summary :: "complaint \<Rightarrow> pyexc + summary"

text \<open>Sequencing: a raise skips what follows.\<close>

definition and_then :: "pyexc + 'a \<Rightarrow> ('a \<Rightarrow> pyexc + 'b) \<Rightarrow> pyexc + 'b" where
  "and_then m f = (case m of Inl x \<Rightarrow> Inl x | Inr v \<Rightarrow> f v)"

text \<open>Step 1: the loader is chosen by the extension.\<close>

definition load_step :: "'raw steps \<Rightarrow> string \<Rightarrow> pyexc + 'raw" where
  "load_step S file_path =
     (let file_extension = lower (path_suffix (path_name file_path)) in
      if file_extension = ''.csv'' then st_load_csv S (path_str file_path)
      else if file_extension \<in> set [''.xlsx'', ''.xls'']
      then st_load_excel S (path_str file_path)
      else if file_extension = ''.pdf'' then st_load_pdf S (path_str file_path)
      else Inl (Exc (Exn ''ValueError'' (''Unsupported file format: '' @ file_extension))))"

text \<open>The existence check and steps 1 to 5.\<close>

definition validated_step :: "'raw steps \<Rightarrow> string \<Rightarrow> pyexc + complaint" where
  "validated_step S file_path =
     and_then (st_exists S (path_str file_path)) (\<lambda>found.
       if \<not> found
       then Inl (Exc (Exn ''FileNotFoundError'' (''File not found: '' @ path_str file_path)))
       else
         and_then (load_step S file_path) (\<lambda>raw_data.
         and_then (st_extract_data S raw_data (path_name file_path)) (\<lambda>structured_data.
         and_then (st_clean_and_normalize S structured_data) (\<lambda>cleaned_data.
         and_then (st_flatten_key_fields S cleaned_data) (\<lambda>flat.
         st_validate_data S flat)))))"

text \<open>Step 7 and the \<^verbatim>\<open>return\<close>.\<close>

definition stamped :: "string \<Rightarrow> string \<Rightarrow> complaint \<Rightarrow> complaint" where
  "stamped stamp file_path d =
     d\<lparr>meta := (meta d)\<lparr>processing_timestamp := Some stamp\<rparr>,
       source_file := Some (path_name file_path)\<rparr>"

definition return_step :: "'raw steps \<Rightarrow> string \<Rightarrow> complaint \<Rightarrow> pyexc + result" where
  "return_step S file_path checked =
     and_then (st_now S file_path) (\<lambda>stamp.
     and_then (st_generate_summary S (stamped stamp file_path checked)) (\<lambda>sm.
     Inr (Success (stamped stamp file_path checked) sm)))"

text \<open>
  The whole \<^verbatim>\<open>try\<close> block: what it returns or raises, and the registry it leaves.
\<close>

definition flagged :: "bool \<Rightarrow> complaint \<Rightarrow> complaint" where
  "flagged dup d = d\<lparr>meta := (meta d)\<lparr>duplicate_flag := dup\<rparr>\<rparr>"

definition try_block :: "'raw steps \<Rightarrow> string set \<Rightarrow> string \<Rightarrow> (pyexc + result) \<times> string set" where
  "try_block S processed_complaints file_path =
     (case validated_step S file_path of
        Inl x \<Rightarrow> (Inl x, processed_complaints)
      | Inr validated_data \<Rightarrow>
          (case st_is_duplicate S processed_complaints validated_data of
             Inl x \<Rightarrow> (Inl x, processed_complaints)
           | Inr True \<Rightarrow>
               (return_step S file_path (flagged True validated_data), processed_complaints)
           | Inr False \<Rightarrow>
               (case st_register_complaint S processed_complaints (flagged False validated_data) of
                  (Some x, registry) \<Rightarrow> (Inl x, registry)
                | (None, registry) \<Rightarrow>
                    (return_step S file_path (flagged False validated_data), registry))))"

text \<open>
  What a call of \<^verbatim>\<open>process_file\<close> does: it returns a dictionary, or an exception
  leaves it.  \<^verbatim>\<open>except Exception as e\<close> takes the instances of \<^verbatim>\<open>Exception\<close> and
  lets everything else pass.
\<close>

datatype outcome = Returned result | Propagated pyexc

fun handler :: "pyexc \<Rightarrow> outcome" where
  "handler (Exc e) = Returned (error_result e)"
| "handler (Base_exc e) = Propagated (Base_exc e)"

definition process_file_steps :: "'raw steps \<Rightarrow> string set \<Rightarrow> string \<Rightarrow> outcome \<times> string set" where
  "process_file_steps S processed_complaints file_path =
     (case try_block S processed_complaints file_path of
        (Inr r, registry) \<Rightarrow> (Returned r, registry)
      | (Inl x, registry) \<Rightarrow> (handler x, registry))"




section \<open>Sample data\<close>

text \<open>
  Stand-ins for the two library functions, good enough to evaluate the model on
  concrete records: every float other than zero prints as \<^verbatim>\<open>25000.0\<close>, and the digest
  of a string is the string itself.
\<close>

definition sample_lib :: pylib where
  "sample_lib = \<lparr>float_repr = (\<lambda>x. ''25000.0''), md5_hexdigest = (\<lambda>s. s)\<rparr>"

text \<open>
  A record with identifier, name, mobile and amount filled and a status that is a
  sentinel: the filled weight is 7.5 of 12.5.
\<close>

definition boundary_complaint :: complaint where
  "boundary_complaint =
     get_standard_schema
       \<lparr>complaint_id := Some ''1234567890'',
        complainant_name := Some ''RAHUL KUMAR'',
        amount_lost := 25000,
        status := Some ''Unknown'',
        complainant_details :=
          (complainant_details get_standard_schema)\<lparr>cd_mobile := Some ''9876543210''\<rparr>\<rparr>"


text \<open>Two filings of one incident under different identifiers.\<close>

definition first_filing :: complaint where
  "first_filing = boundary_complaint\<lparr>date_time := Some ''2024-01-15 10:20:30''\<rparr>"

definition second_filing :: complaint where
  "second_filing = first_filing\<lparr>complaint_id := Some ''9999999999''\<rparr>"

text \<open>
  A world for evaluation: every path exists, every reader returns at once, the
  mapping returns the schema with the identifier set to the file's name.
\<close>

definition sample_world :: "unit world" where
  "sample_world =
     \<lparr>path_exists = (\<lambda>p. True),
      read_csv = (\<lambda>p enc. Inr ()),
      read_excel = (\<lambda>p. Inr ()),
      read_pdf_text = (\<lambda>p. Inr ''Acknowledgement Number : 1234567890''),
      parse_pdf_text = (\<lambda>t. Inr ()),
      extract_data = (\<lambda>raw name. Inr (get_standard_schema\<lparr>complaint_id := Some name\<rparr>)),
      clean_and_normalize = (\<lambda>d. Inr d),
      clock = (\<lambda>p. ''2024-01-15T10:20:30''),
      lib = sample_lib\<rparr>"






section \<open>Properties of the normalizers\<close>

lemma list_all_drop_filter_digits:
  "list_all is_digit (drop n (filter is_digit s))"
proof -
  have "set (drop n (filter is_digit s)) \<subseteq> set (filter is_digit s)"
    by (rule set_drop_subset)
  then show ?thesis
    by (auto simp: list_all_iff)
qed

text \<open>
  C4.  A mobile input with ten or more digit characters is normalized to exactly
  its last ten digit characters: every other character is dropped, and so is any
  longer prefix of digits such as a country code.
\<close>

theorem normalize_mobile_last_ten:
  assumes "10 \<le> length (filter is_digit mobile)"
  shows "normalize_mobile mobile =
           drop (length (filter is_digit mobile) - 10) (filter is_digit mobile)
         \<and> length (normalize_mobile mobile) = 10
         \<and> list_all is_digit (normalize_mobile mobile)"
proof -
  let ?ds = "filter is_digit mobile"
  from assms have ne: "mobile \<noteq> []" by auto
  have eq: "normalize_mobile mobile = drop (length ?ds - 10) ?ds"
  proof (cases "length ?ds > 10")
    case True
    with ne show ?thesis by (simp add: normalize_mobile_def Let_def)
  next
    case False
    with assms have "length ?ds = 10" by simp
    with ne show ?thesis by (simp add: normalize_mobile_def Let_def)
  qed
  moreover have "length (drop (length ?ds - 10) ?ds) = 10"
    using assms by simp
  moreover have "list_all is_digit (drop (length ?ds - 10) ?ds)"
    by (rule list_all_drop_filter_digits)
  ultimately show ?thesis by simp
qed


text \<open>The input of the witness below: a number written with its country code.\<close>

lemma digits_of_sample_mobile:
  "filter is_digit ''+91 98765-43210'' = ''919876543210''"
  by code_simp

theorem normalize_mobile_last_ten_witness:
  "10 \<le> length (filter is_digit ''+91 98765-43210'')
   \<and> normalize_mobile ''+91 98765-43210'' = ''9876543210''"
  using normalize_mobile_last_ten [of "''+91 98765-43210''"]
  unfolding digits_of_sample_mobile by simp


subsection \<open>Free text\<close>















section \<open>Properties of the validator\<close>


lemma round_half_even_of_int: "round_half_even (of_int n) = n"
  by (simp add: round_half_even_def)

lemma round2_of_int: "round2 (of_int n) = of_int n"
proof -
  have "(of_int n :: rat) * 100 = of_int (n * 100)" by simp
  then have "round_half_even (of_int n * 100) = n * 100"
    by (simp only: round_half_even_of_int)
  then show ?thesis by (simp add: round2_def)
qed

lemma score_loop_sums:
  "score_loop L fs (t, f) =
     (t + sum_list (map (\<lambda>(n, v, w). w) fs),
      f + sum_list (map (\<lambda>(n, v, w). weight_if (field_filled L v) w) fs))"
  by (induction fs arbitrary: t f) (auto simp: weight_if_def)

lemma quality_score_eq:
  "quality_score L d =
     8 * (weight_if (field_filled L (of_opt (complaint_id d))) 2
        + weight_if (field_filled L (of_opt (complainant_name d))) 2
        + weight_if (field_filled L (of_opt (cd_mobile (complainant_details d)))) (3 / 2)
        + weight_if (field_filled L (of_opt (district d))) 1
        + weight_if (field_filled L (of_opt (date_time d))) (3 / 2)
        + weight_if (field_filled L (of_opt (crime_type d))) (3 / 2)
        + weight_if (field_filled L (PyFloat (amount_lost d))) 2
        + weight_if (field_filled L (of_opt (status d))) 1)"
  by (simp add: quality_score_def score_loop_sums critical_fields_def)

lemma quality_score_int:
  "\<exists>n::int. quality_score L d = of_int n \<and> 0 \<le> n \<and> n \<le> 100"
proof -
  define b1 where "b1 = field_filled L (of_opt (complaint_id d))"
  define b2 where "b2 = field_filled L (of_opt (complainant_name d))"
  define b3 where "b3 = field_filled L (of_opt (cd_mobile (complainant_details d)))"
  define b4 where "b4 = field_filled L (of_opt (district d))"
  define b5 where "b5 = field_filled L (of_opt (date_time d))"
  define b6 where "b6 = field_filled L (of_opt (crime_type d))"
  define b7 where "b7 = field_filled L (PyFloat (amount_lost d))"
  define b8 where "b8 = field_filled L (of_opt (status d))"
  define n :: int where "n = (if b1 then 16 else 0) + (if b2 then 16 else 0)
     + (if b3 then 12 else 0) + (if b4 then 8 else 0) + (if b5 then 12 else 0)
     + (if b6 then 12 else 0) + (if b7 then 16 else 0) + (if b8 then 8 else 0)"
  have "quality_score L d = of_int n"
    unfolding quality_score_eq n_def b1_def b2_def b3_def b4_def b5_def b6_def b7_def b8_def
    by (simp add: weight_if_def)
  moreover have "0 \<le> n" "n \<le> 100" by (simp_all add: n_def)
  ultimately show ?thesis by blast
qed

lemma stored_score: "data_quality_score (meta (validate_data L d)) = quality_score L d"
proof -
  obtain n :: int where "quality_score L d = of_int n" using quality_score_int by blast
  then show ?thesis by (simp add: validate_data_def round2_of_int)
qed

lemma field_filled_spec: "field_filled L v = spec_filled L v"
proof (cases v)
  case PyNone
  then show ?thesis by (simp add: field_filled_def spec_filled_def)
next
  case (PyStr s)
  have "strip [] = []" by (simp add: strip_def)
  with PyStr show ?thesis by (auto simp: field_filled_def spec_filled_def)
next
  case (PyFloat x)
  have "lower ''0.0'' = ''0.0''" by code_simp
  with PyFloat show ?thesis
    by (auto simp: field_filled_def spec_filled_def float_str_def)
qed

text \<open>
  C3.  The stored data-quality score is the score of the specification: a hundred
  times the weight of the filled fields over the weight of all eight fields
  (identifier 2, name 2, mobile 1.5, district 1, date-time 1.5, crime type 1.5,
  amount 2, status 1), rounded to two decimals, a field being filled when it is
  not null, not empty after trimming and, in lower case, none of \<^verbatim>\<open>none\<close>,
  \<^verbatim>\<open>unknown\<close>, \<^verbatim>\<open>0\<close>, \<^verbatim>\<open>0.0\<close>.
\<close>

theorem quality_score_formula:
  "data_quality_score (meta (validate_data L d)) = spec_score L d"
proof -
  have "data_quality_score (meta (validate_data L d)) = round2 (quality_score L d)"
    by (simp add: validate_data_def)
  also have "quality_score L d = 100 *
       (spec_weight L (of_opt (complaint_id d)) 2
        + spec_weight L (of_opt (complainant_name d)) 2
        + spec_weight L (of_opt (cd_mobile (complainant_details d))) (3 / 2)
        + spec_weight L (of_opt (district d)) 1
        + spec_weight L (of_opt (date_time d)) (3 / 2)
        + spec_weight L (of_opt (crime_type d)) (3 / 2)
        + spec_weight L (PyFloat (amount_lost d)) 2
        + spec_weight L (of_opt (status d)) 1)
       / (2 + 2 + 3 / 2 + 1 + 3 / 2 + 3 / 2 + 2 + 1)"
    unfolding quality_score_eq
    by (simp add: weight_if_def spec_weight_def field_filled_spec)
  finally show ?thesis by (simp only: spec_score_def)
qed

text \<open>The boundary: a score of exactly 60 is \<^verbatim>\<open>valid\<close>.\<close>

lemma boundary_quality_score: "quality_score sample_lib boundary_complaint = 60"
  by code_simp

theorem quality_score_formula_witness:
  "spec_score sample_lib boundary_complaint = 60"
  using quality_score_formula [of sample_lib boundary_complaint] boundary_quality_score
  by (simp add: stored_score)

section \<open>Properties of the registry and of \<^verbatim>\<open>process_file\<close>\<close>

lemma is_duplicate_iff:
  "is_duplicate L seen d \<longleftrightarrow>
     (\<exists>i. complaint_id d = Some i \<and> i \<noteq> [] \<and> i \<in> seen) \<or> complaint_hash L d \<in> seen"
  by (cases "complaint_id d") (auto simp: is_duplicate_def of_opt_def)

lemma register_complaint_keys:
  "register_complaint L seen d = seen \<union> registry_keys L d"
  by (cases "complaint_id d") (auto simp: register_complaint_def registry_keys_def of_opt_def Let_def)

lemma complaint_hash_flag [simp]:
  "complaint_hash L (d\<lparr>meta := m\<rparr>) = complaint_hash L d"
  by (simp add: complaint_hash_def hash_string_def)

lemma registry_keys_flag [simp]:
  "registry_keys L (d\<lparr>meta := m\<rparr>) = registry_keys L d"
  by (simp add: registry_keys_def split: option.splits)

lemma check_duplicates_flag:
  "duplicate_flag (meta (fst (check_duplicates L seen d))) = is_duplicate L seen d"
  by (simp add: check_duplicates_def Let_def)

lemma check_duplicates_registry:
  "snd (check_duplicates L seen d) =
     (if is_duplicate L seen d then seen else seen \<union> registry_keys L d)"
  by (simp add: check_duplicates_def Let_def register_complaint_keys)

lemma complaint_hash_in_keys: "complaint_hash L d \<in> registry_keys L d"
  by (cases "complaint_id d") (auto simp: registry_keys_def)

lemma complaint_hash_cong:
  assumes "complainant_name d' = complainant_name d"
    and "cd_mobile (complainant_details d') = cd_mobile (complainant_details d)"
    and "date_time d' = date_time d"
    and "amount_lost d' = amount_lost d"
  shows "complaint_hash L d' = complaint_hash L d"
  using assms by (simp add: complaint_hash_def hash_string_def)

lemma process_file_failure:
  "prepare W p = Inl e \<Longrightarrow> process_file W seen p = (Failure (exn_msg e) (exn_type e), seen)"
  by (simp add: process_file_def error_result_def)

lemma process_file_success:
  assumes "prepare W p = Inr c"
  shows "process_file W seen p =
     (let ck = check_duplicates (lib W) seen (validate_data (lib W) (flatten_key_fields c));
          final = finalize W p (fst ck)
      in (Success final (generate_summary final), snd ck))"
  using assms by (simp add: process_file_def Let_def finalize_def split: prod.splits)

lemma finalize_flag [simp]: "duplicate_flag (meta (finalize W p d)) = duplicate_flag (meta d)"
  by (simp add: finalize_def)

lemma finalize_keys [simp]: "registry_keys L (finalize W p d) = registry_keys L d"
  by (simp add: finalize_def registry_keys_def complaint_hash_def hash_string_def split: option.splits)

lemma check_duplicates_keys [simp]:
  "registry_keys L (fst (check_duplicates L seen d)) = registry_keys L d"
  by (simp add: check_duplicates_def Let_def)

lemma process_file_registry:
  "snd (process_file W seen p) =
     (case prepare W p of
        Inl e \<Rightarrow> seen
      | Inr c \<Rightarrow> snd (check_duplicates (lib W) seen (validate_data (lib W) (flatten_key_fields c))))"
  by (cases "prepare W p") (simp_all add: process_file_failure process_file_success Let_def)

lemma process_file_grows: "seen \<subseteq> snd (process_file W seen p)"
  by (cases "prepare W p") (auto simp: process_file_registry check_duplicates_registry)

lemma process_all_grows: "seen \<subseteq> snd (process_all W seen ps)"
proof (induction ps arbitrary: seen)
  case Nil
  then show ?case by simp
next
  case (Cons p ps)
  have "seen \<subseteq> snd (process_file W seen p)" by (rule process_file_grows)
  also have "\<dots> \<subseteq> snd (process_all W (snd (process_file W seen p)) ps)" by (rule Cons.IH)
  finally show ?case by (simp add: case_prod_beta Let_def)
qed


lemma prepare_csv:
  "prepare sample_world ''a.csv'' = Inr (get_standard_schema\<lparr>complaint_id := Some ''a.csv''\<rparr>)"
  by code_simp


lemma prepare_notes:
  "prepare sample_world ''notes.txt'' = Inl (Exn ''ValueError'' ''Unsupported file format: .txt'')"
  by code_simp

text \<open>
  C1.  Starting from an empty registry, the first submission of a record is not
  flagged and the second submission of the same record is; a record with the same
  name, mobile, date-time and amount is flagged on the second submission whatever
  its identifier; and a file processed twice is a duplicate the second time.  The
  reason: a record is a duplicate exactly when its (non-empty) identifier or its
  fingerprint is in the registry, and the check comes before the registration.
\<close>

theorem duplicate_detection:
  "\<not> duplicate_flag (meta (fst (check_duplicates L {} d)))
   \<and> duplicate_flag (meta (fst (check_duplicates L (snd (check_duplicates L {} d)) d)))
   \<and> (complainant_name d' = complainant_name d
        \<and> cd_mobile (complainant_details d') = cd_mobile (complainant_details d)
        \<and> date_time d' = date_time d
        \<and> amount_lost d' = amount_lost d
      \<longrightarrow> duplicate_flag (meta (fst (check_duplicates L (snd (check_duplicates L {} d)) d'))))
   \<and> (is_duplicate L seen r \<longleftrightarrow>
        (\<exists>i. complaint_id r = Some i \<and> i \<noteq> [] \<and> i \<in> seen)
        \<or> complaint_hash L r \<in> seen)
   \<and> (prepare W p = Inr c
      \<longrightarrow> \<not> is_duplicate_result (fst (process_file W {} p))
        \<and> is_duplicate_result (fst (process_file W (snd (process_file W {} p)) p)))"
proof -
  let ?s1 = "snd (check_duplicates L {} d)"
  have first: "\<And>K x. \<not> is_duplicate K {} x" by (simp add: is_duplicate_iff)
  have again: "\<And>K x. is_duplicate K (snd (check_duplicates K {} x)) x"
    using complaint_hash_in_keys by (simp add: check_duplicates_registry first is_duplicate_iff)
  have other: "complainant_name d' = complainant_name d
        \<and> cd_mobile (complainant_details d') = cd_mobile (complainant_details d)
        \<and> date_time d' = date_time d
        \<and> amount_lost d' = amount_lost d
      \<longrightarrow> is_duplicate L ?s1 d'"
  proof
    assume same: "complainant_name d' = complainant_name d
        \<and> cd_mobile (complainant_details d') = cd_mobile (complainant_details d)
        \<and> date_time d' = date_time d
        \<and> amount_lost d' = amount_lost d"
    then have "complaint_hash L d' = complaint_hash L d"
      using complaint_hash_cong [of d' d L] by blast
    moreover have "complaint_hash L d \<in> ?s1"
      using complaint_hash_in_keys by (simp add: check_duplicates_registry first)
    ultimately show "is_duplicate L ?s1 d'" by (simp add: is_duplicate_iff)
  qed
  have files: "prepare W p = Inr c
      \<longrightarrow> \<not> is_duplicate_result (fst (process_file W {} p))
        \<and> is_duplicate_result (fst (process_file W (snd (process_file W {} p)) p))"
  proof
    assume ok: "prepare W p = Inr c"
    let ?v = "validate_data (lib W) (flatten_key_fields c)"
    have r: "\<And>s. is_duplicate_result (fst (process_file W s p)) = is_duplicate (lib W) s ?v"
      using ok by (simp add: process_file_success Let_def check_duplicates_flag)
    have "snd (process_file W {} p) = snd (check_duplicates (lib W) {} ?v)"
      using ok by (simp add: process_file_registry)
    then have "is_duplicate_result (fst (process_file W (snd (process_file W {} p)) p))"
      using again [of "lib W" ?v] by (simp only: r)
    moreover have "\<not> is_duplicate_result (fst (process_file W {} p))"
      using first [of "lib W" ?v] by (simp add: r)
    ultimately
    show "\<not> is_duplicate_result (fst (process_file W {} p))
        \<and> is_duplicate_result (fst (process_file W (snd (process_file W {} p)) p))"
      by blast
  qed
  have a: "\<not> duplicate_flag (meta (fst (check_duplicates L {} d)))"
    using first [of L d] by (simp add: check_duplicates_flag)
  have b: "duplicate_flag (meta (fst (check_duplicates L ?s1 d)))"
    using again [of L d] by (simp only: check_duplicates_flag)
  have c: "complainant_name d' = complainant_name d
        \<and> cd_mobile (complainant_details d') = cd_mobile (complainant_details d)
        \<and> date_time d' = date_time d
        \<and> amount_lost d' = amount_lost d
      \<longrightarrow> duplicate_flag (meta (fst (check_duplicates L ?s1 d')))"
    using other by (simp only: check_duplicates_flag)
  from a b c is_duplicate_iff [of L seen r] files show ?thesis
    by blast
qed

theorem duplicate_detection_witness:
  "complaint_id second_filing \<noteq> complaint_id first_filing
   \<and> \<not> duplicate_flag (meta (fst (check_duplicates sample_lib {} first_filing)))
   \<and> duplicate_flag (meta (fst (check_duplicates sample_lib
         (snd (check_duplicates sample_lib {} first_filing)) first_filing)))
   \<and> duplicate_flag (meta (fst (check_duplicates sample_lib
         (snd (check_duplicates sample_lib {} first_filing)) second_filing)))
   \<and> is_duplicate_result (fst (process_file sample_world
         (snd (process_file sample_world {} ''a.csv'')) ''a.csv''))"
  using duplicate_detection [of sample_lib first_filing second_filing _ _ sample_world "''a.csv''"
      "get_standard_schema\<lparr>complaint_id := Some ''a.csv''\<rparr>"] prepare_csv
  by (simp add: second_filing_def first_filing_def boundary_complaint_def)

lemma check_duplicates_score:
  "data_quality_score (meta (fst (check_duplicates L seen d))) = data_quality_score (meta d)
   \<and> validation_status (meta (fst (check_duplicates L seen d))) = validation_status (meta d)"
  by (simp add: check_duplicates_def Let_def)

lemma process_file_score:
  assumes "fst (process_file W seen p) = Success d sm"
  shows "\<exists>c. data_quality_score (meta d) = data_quality_score (meta (validate_data (lib W) c))
           \<and> validation_status (meta d) = validation_status (meta (validate_data (lib W) c))"
proof (cases "prepare W p")
  case (Inl e)
  with assms show ?thesis by (simp add: process_file_failure)
next
  case (Inr c)
  let ?v = "validate_data (lib W) (flatten_key_fields c)"
  from Inr assms have "d = finalize W p (fst (check_duplicates (lib W) seen ?v))"
    by (simp add: process_file_success Let_def)
  then have "data_quality_score (meta d) = data_quality_score (meta ?v)
           \<and> validation_status (meta d) = validation_status (meta ?v)"
    by (simp add: finalize_def check_duplicates_score)
  then show ?thesis by blast
qed

text \<open>
  C2.  After validation the status is \<^verbatim>\<open>valid\<close> exactly when the stored
  data-quality score is at least 60, and \<^verbatim>\<open>incomplete\<close> exactly when it is below; the
  score lies between 0 and 100.  The same holds of the record that \<^verbatim>\<open>process_file\<close>
  returns.  (The code compares the score before rounding and stores it after: the
  two agree, the score being a multiple of four.)
\<close>

theorem validation_status_iff_score:
  "(validation_status (meta (validate_data L d)) = Some ''valid''
      \<longleftrightarrow> 60 \<le> data_quality_score (meta (validate_data L d)))
   \<and> (validation_status (meta (validate_data L d)) = Some ''incomplete''
      \<longleftrightarrow> data_quality_score (meta (validate_data L d)) < 60)
   \<and> 0 \<le> data_quality_score (meta (validate_data L d))
   \<and> data_quality_score (meta (validate_data L d)) \<le> 100
   \<and> (fst (process_file W seen p) = Success r sm \<longrightarrow>
        (validation_status (meta r) = Some ''valid'' \<longleftrightarrow> 60 \<le> data_quality_score (meta r))
        \<and> 0 \<le> data_quality_score (meta r) \<and> data_quality_score (meta r) \<le> 100)"
proof -
  have v: "\<And>K c. (validation_status (meta (validate_data K c)) = Some ''valid''
        \<longleftrightarrow> 60 \<le> data_quality_score (meta (validate_data K c)))
     \<and> (validation_status (meta (validate_data K c)) = Some ''incomplete''
        \<longleftrightarrow> data_quality_score (meta (validate_data K c)) < 60)
     \<and> 0 \<le> data_quality_score (meta (validate_data K c))
     \<and> data_quality_score (meta (validate_data K c)) \<le> 100"
  proof -
    fix K c
    obtain n :: int where n: "quality_score K c = of_int n" "0 \<le> n" "n \<le> 100"
      using quality_score_int by blast
    have s: "data_quality_score (meta (validate_data K c)) = quality_score K c"
      by (rule stored_score)
    have st: "validation_status (meta (validate_data K c)) =
             Some (if quality_score K c \<ge> 60 then ''valid'' else ''incomplete'')"
      by (simp add: validate_data_def)
    from n have "0 \<le> quality_score K c" "quality_score K c \<le> 100" by simp_all
    with s st show "(validation_status (meta (validate_data K c)) = Some ''valid''
        \<longleftrightarrow> 60 \<le> data_quality_score (meta (validate_data K c)))
     \<and> (validation_status (meta (validate_data K c)) = Some ''incomplete''
        \<longleftrightarrow> data_quality_score (meta (validate_data K c)) < 60)
     \<and> 0 \<le> data_quality_score (meta (validate_data K c))
     \<and> data_quality_score (meta (validate_data K c)) \<le> 100"
      by auto
  qed
  have returned: "fst (process_file W seen p) = Success r sm \<longrightarrow>
        (validation_status (meta r) = Some ''valid'' \<longleftrightarrow> 60 \<le> data_quality_score (meta r))
        \<and> 0 \<le> data_quality_score (meta r) \<and> data_quality_score (meta r) \<le> 100"
  proof
    assume "fst (process_file W seen p) = Success r sm"
    then obtain c where
      "data_quality_score (meta r) = data_quality_score (meta (validate_data (lib W) c))"
      "validation_status (meta r) = validation_status (meta (validate_data (lib W) c))"
      using process_file_score by blast
    with v [of "lib W" c]
    show "(validation_status (meta r) = Some ''valid'' \<longleftrightarrow> 60 \<le> data_quality_score (meta r))
        \<and> 0 \<le> data_quality_score (meta r) \<and> data_quality_score (meta r) \<le> 100"
      by simp
  qed
  from v [of L d] returned show ?thesis by blast
qed

theorem validation_status_iff_score_witness:
  "data_quality_score (meta (validate_data sample_lib boundary_complaint)) = 60
   \<and> validation_status (meta (validate_data sample_lib boundary_complaint)) = Some ''valid''"
proof -
  have "data_quality_score (meta (validate_data sample_lib boundary_complaint)) = 60"
    using boundary_quality_score by (simp add: stored_score)
  with validation_status_iff_score [of sample_lib boundary_complaint sample_world "{}"
      "''notes.txt''" boundary_complaint "generate_summary boundary_complaint"]
  show ?thesis by simp
qed

text \<open>
  C10.  A call of \<^verbatim>\<open>process_file\<close> never takes a key out of the registry, and neither
  does a batch.  The registry is left as it was when the call ends in an error and
  when the record is flagged as a duplicate; for a record that is not flagged, what
  is added is its identifier (when it has one) and its fingerprint, nothing else.
  The same holds of the check-and-register step on its own.
\<close>

theorem registry_only_grows:
  "seen \<subseteq> snd (process_file W seen p)
   \<and> seen \<subseteq> snd (process_all W seen ps)
   \<and> (result_status (fst (process_file W seen p)) = ''error''
        \<longrightarrow> snd (process_file W seen p) = seen)
   \<and> (is_duplicate_result (fst (process_file W seen p))
        \<longrightarrow> snd (process_file W seen p) = seen)
   \<and> (fst (process_file W seen p) = Success d sm \<and> \<not> duplicate_flag (meta d)
        \<longrightarrow> snd (process_file W seen p) = seen \<union> registry_keys (lib W) d)
   \<and> (is_duplicate L seen r \<longrightarrow> snd (check_duplicates L seen r) = seen)
   \<and> (\<not> is_duplicate L seen r
        \<longrightarrow> snd (check_duplicates L seen r) = seen \<union> registry_keys L r)"
proof (cases "prepare W p")
  case (Inl e)
  then show ?thesis
    by (simp add: process_file_failure process_all_grows check_duplicates_registry)
next
  case (Inr c)
  let ?v = "validate_data (lib W) (flatten_key_fields c)"
  let ?ck = "check_duplicates (lib W) seen ?v"
  have pf: "process_file W seen p =
      (Success (finalize W p (fst ?ck)) (generate_summary (finalize W p (fst ?ck))), snd ?ck)"
    using Inr by (simp add: process_file_success Let_def)
  have a: "seen \<subseteq> snd (process_file W seen p)" by (rule process_file_grows)
  have b: "seen \<subseteq> snd (process_all W seen ps)" by (rule process_all_grows)
  have c: "result_status (fst (process_file W seen p)) \<noteq> ''error''" by (simp add: pf)
  have d: "is_duplicate_result (fst (process_file W seen p))
        \<longrightarrow> snd (process_file W seen p) = seen"
    by (simp add: pf check_duplicates_flag check_duplicates_registry)
  have e: "fst (process_file W seen p) = Success d sm \<and> \<not> duplicate_flag (meta d)
        \<longrightarrow> snd (process_file W seen p) = seen \<union> registry_keys (lib W) d"
    by (auto simp: pf check_duplicates_flag check_duplicates_registry)
  from a b c d e show ?thesis by (simp add: check_duplicates_registry)
qed


lemma process_file_steps_raise:
  "try_block S seen p = (Inl x, reg) \<Longrightarrow> process_file_steps S seen p = (handler x, reg)"
  by (simp add: process_file_steps_def)

lemma process_file_steps_return:
  "try_block S seen p = (Inr r, reg) \<Longrightarrow> process_file_steps S seen p = (Returned r, reg)"
  by (simp add: process_file_steps_def)














lemma process_file_trailing_slash:
  "result_status (fst (process_file sample_world {} ''a.csv/'')) = ''success''"
  "fst (process_file (sample_world\<lparr>path_exists := (\<lambda>p. False)\<rparr>) {} ''./missing.csv'') =
     Failure ''File not found: missing.csv'' ''FileNotFoundError''"
  by code_simp+









lemma first_filing_keys:
  "registry_keys sample_lib first_filing =
     {''1234567890'', ''RAHUL KUMAR_9876543210_2024-01-15 10:20:30_25000.0''}"
  by code_simp

lemma first_filing_hash:
  "complaint_hash sample_lib first_filing = ''RAHUL KUMAR_9876543210_2024-01-15 10:20:30_25000.0''"
  by code_simp
lemma first_filing_id:
  "complaint_id first_filing = Some ''1234567890''"
  by code_simp

theorem registry_only_grows_witness:
  "\<not> is_duplicate sample_lib {} first_filing
   \<and> snd (check_duplicates sample_lib {} first_filing) =
       {''1234567890'', ''RAHUL KUMAR_9876543210_2024-01-15 10:20:30_25000.0''}
   \<and> is_duplicate sample_lib {''1234567890''} first_filing
   \<and> snd (check_duplicates sample_lib {''1234567890''} first_filing) = {''1234567890''}
   \<and> result_status (fst (process_file sample_world {''x''} ''notes.txt'')) = ''error''
   \<and> snd (process_file sample_world {''x''} ''notes.txt'') = {''x''}"
proof -
  have a: "\<not> is_duplicate sample_lib {} first_filing" by (simp add: is_duplicate_iff)
  have b: "is_duplicate sample_lib {''1234567890''} first_filing"
    by (simp add: is_duplicate_iff first_filing_id)
  have c: "result_status (fst (process_file sample_world {''x''} ''notes.txt'')) = ''error''"
    using prepare_notes by (simp add: process_file_failure)
  from registry_only_grows [of "{}" sample_world "''a.csv''" "[]" _ _ sample_lib first_filing] a
  have a': "snd (check_duplicates sample_lib {} first_filing) =
       {''1234567890'', ''RAHUL KUMAR_9876543210_2024-01-15 10:20:30_25000.0''}"
    by (simp add: first_filing_keys)
  from registry_only_grows [of "{''1234567890''}" sample_world "''a.csv''" "[]" _ _ sample_lib first_filing] b
  have b': "snd (check_duplicates sample_lib {''1234567890''} first_filing) = {''1234567890''}"
    by simp
  from registry_only_grows [of "{''x''}" sample_world "''notes.txt''" "[]"] c
  have c': "snd (process_file sample_world {''x''} ''notes.txt'') = {''x''}"
    by simp
  from a a' b b' c c' show ?thesis by simp
qed

section \<open>Properties of \<^verbatim>\<open>_extract_platform\<close>\<close>

lemma contains_map: "contains t p \<Longrightarrow> contains (map f t) (map f p)"
proof (induction t)
  case Nil
  then show ?case by simp
next
  case (Cons c t)
  from Cons.prems have "prefix p (c # t) \<or> contains t p" by simp
  then show ?case
  proof
    assume "prefix p (c # t)"
    then have "prefix (map f p) (map f (c # t))" by (rule map_mono_prefix)
    then show ?thesis by simp
  next
    assume "contains t p"
    then have "contains (map f t) (map f p)" by (rule Cons.IH)
    then show ?thesis by simp
  qed
qed

lemma re_search_ignorecase_contains:
  "contains txt p \<Longrightarrow> re_search_ignorecase p txt"
  unfolding re_search_ignorecase_def lower_def by (rule contains_map)

lemma platform_of_actions_first:
  assumes "\<forall>a \<in> set skipped. \<not> truthy (of_opt (beneficiary_bank a))"
    and "beneficiary_bank a = Some b" and "b \<noteq> []"
  shows "platform_of_actions (skipped @ a # rest) = b"
  using assms
  by (induction skipped) (simp_all add: platform_of_actions_def of_opt_def)

lemma platform_of_actions_none:
  assumes "\<forall>a \<in> set actions. \<not> truthy (of_opt (beneficiary_bank a))"
  shows "platform_of_actions actions = ''Unknown''"
proof -
  from assms have "find (\<lambda>a. truthy (of_opt (beneficiary_bank a))) actions = None"
    by (simp add: find_None_iff)
  then show ?thesis by (simp add: platform_of_actions_def)
qed

lemma sub_upi_phonepe: "contains ''UPI - PhonePe'' ''UPI''" by code_simp
lemma sub_upi: "contains ''UPI'' ''UPI''" by code_simp
lemma sub_debit_card:
  "\<not> contains ''Debit Card Fraud'' ''UPI'' \<and> contains ''Debit Card Fraud'' ''Card''"
  by code_simp

text \<open>
  C6, as the code has it.  The steps in order: a sub-category that contains
  \<^verbatim>\<open>UPI\<close> gives the first of PhonePe, Google Pay, GPay, Paytm, Amazon Pay, BHIM that
  occurs in the text (case aside), else \<^verbatim>\<open>UPI\<close>; otherwise a sub-category that
  contains \<^verbatim>\<open>Card\<close> gives \<^verbatim>\<open>Card\<close>; otherwise one that contains \<^verbatim>\<open>Banking\<close> gives
  \<^verbatim>\<open>Net Banking\<close>; otherwise the bank of the first transaction, when it has one;
  otherwise the beneficiary bank of the first action that has a non-empty one;
  otherwise \<^verbatim>\<open>Unknown\<close>.  In particular \<^verbatim>\<open>UPI - PhonePe\<close> with no application named in
  the text gives \<^verbatim>\<open>UPI\<close>, \<^verbatim>\<open>UPI\<close> with \<^verbatim>\<open>PhonePe\<close> in the text gives \<^verbatim>\<open>PhonePe\<close>, and
  \<^verbatim>\<open>Debit Card Fraud\<close> gives \<^verbatim>\<open>Card\<close>.
\<close>

theorem platform_precedence:
  "(contains (sub_category_of data) ''UPI'' \<longrightarrow>
      extract_platform data txt =
        (case find (\<lambda>p. re_search_ignorecase p txt) platforms of
           Some p \<Rightarrow> p | None \<Rightarrow> ''UPI''))
   \<and> (\<not> contains (sub_category_of data) ''UPI'' \<and> contains (sub_category_of data) ''Card'' \<longrightarrow>
      extract_platform data txt = ''Card'')
   \<and> (\<not> contains (sub_category_of data) ''UPI'' \<and> \<not> contains (sub_category_of data) ''Card''
      \<and> (contains (sub_category_of data) ''Net Banking''
          \<or> contains (sub_category_of data) ''Banking'') \<longrightarrow>
      extract_platform data txt = ''Net Banking'')
   \<and> (\<not> contains (sub_category_of data) ''UPI'' \<and> \<not> contains (sub_category_of data) ''Card''
      \<and> \<not> contains (sub_category_of data) ''Net Banking''
      \<and> \<not> contains (sub_category_of data) ''Banking'' \<longrightarrow>
      (pd_transactions data = first_trans # later \<and> tx_bank first_trans = Some bank \<longrightarrow>
         extract_platform data txt = bank)
      \<and> (pd_transactions data = []
          \<or> (pd_transactions data = first_trans # later \<and> tx_bank first_trans = None) \<longrightarrow>
         extract_platform data txt = platform_of_actions (pd_actions_taken data)))
   \<and> ((\<forall>a \<in> set skipped. \<not> truthy (of_opt (beneficiary_bank a)))
      \<and> beneficiary_bank a = Some b \<and> b \<noteq> [] \<longrightarrow>
      platform_of_actions (skipped @ a # others) = b)
   \<and> ((\<forall>a \<in> set actions. \<not> truthy (of_opt (beneficiary_bank a))) \<longrightarrow>
      platform_of_actions actions = ''Unknown'')
   \<and> (pd_sub_category data = Some ''UPI - PhonePe''
      \<and> (\<forall>p \<in> set platforms. \<not> re_search_ignorecase p txt) \<longrightarrow>
      extract_platform data txt = ''UPI'')
   \<and> (pd_sub_category data = Some ''UPI'' \<and> contains txt ''PhonePe'' \<longrightarrow>
      extract_platform data txt = ''PhonePe'')
   \<and> (pd_sub_category data = Some ''Debit Card Fraud'' \<longrightarrow>
      extract_platform data txt = ''Card'')"
proof -
  let ?sub = "sub_category_of data"
  have upi: "contains ?sub ''UPI'' \<longrightarrow>
      extract_platform data txt =
        (case find (\<lambda>p. re_search_ignorecase p txt) platforms of
           Some p \<Rightarrow> p | None \<Rightarrow> ''UPI'')"
    by (simp add: extract_platform_def sub_category_of_def)
  have card: "\<not> contains ?sub ''UPI'' \<and> contains ?sub ''Card'' \<longrightarrow>
      extract_platform data txt = ''Card''"
    by (simp add: extract_platform_def sub_category_of_def)
  have banking: "\<not> contains ?sub ''UPI'' \<and> \<not> contains ?sub ''Card''
      \<and> (contains ?sub ''Net Banking'' \<or> contains ?sub ''Banking'') \<longrightarrow>
      extract_platform data txt = ''Net Banking''"
    by (simp add: extract_platform_def sub_category_of_def)
  have rest: "\<not> contains ?sub ''UPI'' \<and> \<not> contains ?sub ''Card''
      \<and> \<not> contains ?sub ''Net Banking'' \<and> \<not> contains ?sub ''Banking'' \<longrightarrow>
      (pd_transactions data = first_trans # later \<and> tx_bank first_trans = Some bank \<longrightarrow>
         extract_platform data txt = bank)
      \<and> (pd_transactions data = []
          \<or> (pd_transactions data = first_trans # later \<and> tx_bank first_trans = None) \<longrightarrow>
         extract_platform data txt = platform_of_actions (pd_actions_taken data))"
    by (auto simp: extract_platform_def sub_category_of_def)
  have acts: "(\<forall>a \<in> set skipped. \<not> truthy (of_opt (beneficiary_bank a)))
      \<and> beneficiary_bank a = Some b \<and> b \<noteq> [] \<longrightarrow>
      platform_of_actions (skipped @ a # others) = b"
    using platform_of_actions_first [of skipped a b others] by blast
  have unknown: "(\<forall>a \<in> set actions. \<not> truthy (of_opt (beneficiary_bank a))) \<longrightarrow>
      platform_of_actions actions = ''Unknown''"
    using platform_of_actions_none [of actions] by blast
  have ex1: "pd_sub_category data = Some ''UPI - PhonePe''
      \<and> (\<forall>p \<in> set platforms. \<not> re_search_ignorecase p txt) \<longrightarrow>
      extract_platform data txt = ''UPI''"
  proof
    assume h: "pd_sub_category data = Some ''UPI - PhonePe''
      \<and> (\<forall>p \<in> set platforms. \<not> re_search_ignorecase p txt)"
    then have "find (\<lambda>p. re_search_ignorecase p txt) platforms = None"
      by (simp add: find_None_iff)
    moreover from h have "contains ?sub ''UPI''"
      using sub_upi_phonepe by (simp add: sub_category_of_def)
    ultimately show "extract_platform data txt = ''UPI''" using upi by simp
  qed
  have ex2: "pd_sub_category data = Some ''UPI'' \<and> contains txt ''PhonePe'' \<longrightarrow>
      extract_platform data txt = ''PhonePe''"
  proof
    assume h: "pd_sub_category data = Some ''UPI'' \<and> contains txt ''PhonePe''"
    then have "re_search_ignorecase ''PhonePe'' txt"
      by (simp add: re_search_ignorecase_contains)
    then have "find (\<lambda>p. re_search_ignorecase p txt) platforms = Some ''PhonePe''"
      by (simp add: platforms_def)
    moreover from h have "contains ?sub ''UPI''"
      using sub_upi by (simp add: sub_category_of_def)
    ultimately show "extract_platform data txt = ''PhonePe''" using upi by simp
  qed
  have ex3: "pd_sub_category data = Some ''Debit Card Fraud'' \<longrightarrow>
      extract_platform data txt = ''Card''"
  proof
    assume h: "pd_sub_category data = Some ''Debit Card Fraud''"
    then have "\<not> contains ?sub ''UPI'' \<and> contains ?sub ''Card''"
      using sub_debit_card by (simp add: sub_category_of_def)
    with card show "extract_platform data txt = ''Card''" by blast
  qed
  from upi card banking rest acts unknown ex1 ex2 ex3 show ?thesis by blast
qed

text \<open>
  The loop over the actions does not stop at the first action: with an empty
  beneficiary bank in the first transfer, the platform is the bank of the second.
\<close>

theorem platform_precedence_counterexample:
  "extract_platform two_transfers [] = ''HDFC Bank''
   \<and> beneficiary_bank (hd (pd_actions_taken two_transfers)) = Some []
   \<and> spec_first_action (pd_actions_taken two_transfers) = ''Unknown''"
  by code_simp


lemma upi_report_sub: "contains (sub_category_of upi_report) ''UPI''" by code_simp

lemma upi_report_find:
  "find (\<lambda>p. re_search_ignorecase p ''Paid through phonepe app'') platforms = Some ''PhonePe''"
  by code_simp

lemma two_transfers_facts:
  "\<not> contains (sub_category_of two_transfers) ''UPI''"
  "\<not> contains (sub_category_of two_transfers) ''Card''"
  "\<not> contains (sub_category_of two_transfers) ''Net Banking''"
  "\<not> contains (sub_category_of two_transfers) ''Banking''"
  "pd_transactions two_transfers = []"
  "pd_actions_taken two_transfers = [transfer [] ''12'' 34] @ transfer ''HDFC Bank'' ''123456'' 5000 # []"
  by code_simp+

theorem platform_precedence_witness:
  "extract_platform upi_report ''Paid through phonepe app'' = ''PhonePe''
   \<and> extract_platform two_transfers [] = ''HDFC Bank''"
proof -
  from platform_precedence [of upi_report "''Paid through phonepe app''"]
  have "contains (sub_category_of upi_report) ''UPI'' \<longrightarrow>
      extract_platform upi_report ''Paid through phonepe app'' =
        (case find (\<lambda>p. re_search_ignorecase p ''Paid through phonepe app'') platforms of
           Some p \<Rightarrow> p | None \<Rightarrow> ''UPI'')"
    by (rule conjunct1)
  with upi_report_sub have a: "extract_platform upi_report ''Paid through phonepe app'' = ''PhonePe''"
    by (simp add: upi_report_find)
  have skipped: "\<forall>a \<in> set [transfer [] ''12'' 34]. \<not> truthy (of_opt (beneficiary_bank a))"
    by (simp add: transfer_def of_opt_def)
  have bank: "beneficiary_bank (transfer ''HDFC Bank'' ''123456'' 5000) = Some ''HDFC Bank''"
    by (simp add: transfer_def)
  from platform_precedence [of two_transfers "[]" _ _ _ "[transfer [] ''12'' 34]"
      "transfer ''HDFC Bank'' ''123456'' 5000" "''HDFC Bank''" "[]"]
    two_transfers_facts skipped bank
  have b: "extract_platform two_transfers [] = ''HDFC Bank''"
    by simp
  from a b show ?thesis by (rule conjI)
qed



section \<open>Properties of \<^verbatim>\<open>_normalize_date\<close>\<close>

lemma char_of_48: "char_of (48 :: nat) = CHR ''0''"
  by code_simp

lemma digit_of_val: "is_digit c \<Longrightarrow> digit_of (digit_val c) = c"
  by (simp add: is_digit_def digit_of_def digit_val_def Let_def)

lemma digit_val_less: "is_digit c \<Longrightarrow> digit_val c < 10"
  by (auto simp: is_digit_def digit_val_def Let_def)

lemma digit_val_zero: "is_digit c \<Longrightarrow> digit_val c = 0 \<longleftrightarrow> c = CHR ''0''"
proof -
  assume d: "is_digit c"
  show ?thesis
  proof
    assume z: "digit_val c = 0"
    from d have "digit_of (digit_val c) = c" by (rule digit_of_val)
    then have "digit_of 0 = c" by (simp only: z)
    then show "c = CHR ''0''" by (simp add: digit_of_def char_of_48)
  next
    assume "c = CHR ''0''"
    then show "digit_val c = 0" by (simp add: digit_val_def)
  qed
qed

lemma dec_small: "n < 10 \<Longrightarrow> dec n = [digit_of n]"
  by (subst dec.simps) simp

lemma dec_step: "0 < n \<Longrightarrow> v < 10 \<Longrightarrow> dec (10 * n + v) = dec n @ [digit_of v]"
  by (subst dec.simps) simp

lemma num_two: "num [c1, c2] = 10 * digit_val c1 + digit_val c2"
  by (simp add: num_def)

lemma num_four:
  "num [c1, c2, c3, c4] =
     10 * (10 * (10 * digit_val c1 + digit_val c2) + digit_val c3) + digit_val c4"
  by (simp add: num_def)

lemma two_digits:
  assumes "is_digit c1" "is_digit c2"
  shows "zfill 2 (dec (num [c1, c2])) = [c1, c2]"
proof (cases "digit_val c1 = 0")
  case True
  with assms(1) have c1: "c1 = CHR ''0''" by (simp only: digit_val_zero)
  from True have n: "num [c1, c2] = digit_val c2" by (simp add: num_two)
  from assms(2) have "dec (digit_val c2) = [digit_of (digit_val c2)]"
    by (intro dec_small digit_val_less)
  also from assms(2) have "\<dots> = [c2]" by (simp only: digit_of_val)
  finally have "dec (num [c1, c2]) = [c2]" by (simp only: n)
  then show ?thesis by (simp add: zfill_def c1)
next
  case False
  then have p: "0 < digit_val c1" by simp
  from p assms(2) have "dec (10 * digit_val c1 + digit_val c2)
      = dec (digit_val c1) @ [digit_of (digit_val c2)]"
    by (intro dec_step digit_val_less)
  also from assms(1) have "dec (digit_val c1) = [digit_of (digit_val c1)]"
    by (intro dec_small digit_val_less)
  finally have "dec (num [c1, c2]) = [c1, c2]"
    using assms by (simp only: num_two digit_of_val append.simps)
  then show ?thesis by (simp add: zfill_def)
qed

lemma four_digits:
  assumes "is_digit c1" "is_digit c2" "is_digit c3" "is_digit c4" "c1 \<noteq> CHR ''0''"
  shows "dec (num [c1, c2, c3, c4]) = [c1, c2, c3, c4]"
proof -
  let ?v1 = "digit_val c1" and ?v2 = "digit_val c2" and ?v3 = "digit_val c3" and ?v4 = "digit_val c4"
  from assms(1,5) digit_val_zero [of c1] have p: "0 < ?v1" by simp
  note lt = digit_val_less [OF assms(1)] digit_val_less [OF assms(2)]
    digit_val_less [OF assms(3)] digit_val_less [OF assms(4)]
  note dv = digit_of_val [OF assms(1)] digit_of_val [OF assms(2)]
    digit_of_val [OF assms(3)] digit_of_val [OF assms(4)]
  have a0: "dec ?v1 = [c1]" using dec_small [OF lt(1)] by (simp only: dv)
  have a: "dec (10 * ?v1 + ?v2) = [c1, c2]"
    using dec_step [OF p lt(2)] by (simp only: a0 dv append.simps)
  have pa: "0 < 10 * ?v1 + ?v2" using p by simp
  have b: "dec (10 * (10 * ?v1 + ?v2) + ?v3) = [c1, c2, c3]"
    using dec_step [OF pa lt(3)] by (simp only: a dv append.simps)
  have pb: "0 < 10 * (10 * ?v1 + ?v2) + ?v3" using p by simp
  have c: "dec (10 * (10 * (10 * ?v1 + ?v2) + ?v3) + ?v4) = [c1, c2, c3, c4]"
    using dec_step [OF pb lt(4)] by (simp only: b dv append.simps)
  then show ?thesis by (simp only: num_four)
qed

lemma two_digits_zero:
  assumes "is_digit c1" "is_digit c2"
  shows "num [c1, c2] = 0 \<longleftrightarrow> c1 = CHR ''0'' \<and> c2 = CHR ''0''"
proof -
  have "num [c1, c2] = 0 \<longleftrightarrow> digit_val c1 = 0 \<and> digit_val c2 = 0"
    by (simp only: num_two) simp
  with assms show ?thesis by (simp only: digit_val_zero)
qed

lemma strftime_date_fields:
  assumes "is_digit y1" "is_digit y2" "is_digit y3" "is_digit y4" "y1 \<noteq> CHR ''0''"
    "is_digit p1" "is_digit p2" "is_digit q1" "is_digit q2"
  shows "strftime_date
           \<lparr>dt_year = num [y1, y2, y3, y4], dt_month = num [p1, p2], dt_day = num [q1, q2],
            dt_hour = h, dt_minute = mi, dt_second = se\<rparr>
         = [y1, y2, y3, y4, CHR ''-'', p1, p2, CHR ''-'', q1, q2]"
proof -
  have y: "dec (num [y1, y2, y3, y4]) = [y1, y2, y3, y4]"
    using assms(1-5) by (rule four_digits)
  have p: "zfill 2 (dec (num [p1, p2])) = [p1, p2]" using assms(6,7) by (rule two_digits)
  have q: "zfill 2 (dec (num [q1, q2])) = [q1, q2]" using assms(8,9) by (rule two_digits)
  show ?thesis by (simp add: strftime_date_def y p q)
qed

lemma strftime_datetime_fields:
  assumes "is_digit y1" "is_digit y2" "is_digit y3" "is_digit y4" "y1 \<noteq> CHR ''0''"
    "is_digit p1" "is_digit p2" "is_digit q1" "is_digit q2"
    "is_digit h1" "is_digit h2" "is_digit n1" "is_digit n2" "is_digit s1" "is_digit s2"
  shows "strftime_datetime
           \<lparr>dt_year = num [y1, y2, y3, y4], dt_month = num [p1, p2], dt_day = num [q1, q2],
            dt_hour = num [h1, h2], dt_minute = num [n1, n2], dt_second = num [s1, s2]\<rparr>
         = [y1, y2, y3, y4, CHR ''-'', p1, p2, CHR ''-'', q1, q2,
            CHR '' '', h1, h2, CHR '':'', n1, n2, CHR '':'', s1, s2]"
proof -
  have d: "strftime_date
           \<lparr>dt_year = num [y1, y2, y3, y4], dt_month = num [p1, p2], dt_day = num [q1, q2],
            dt_hour = num [h1, h2], dt_minute = num [n1, n2], dt_second = num [s1, s2]\<rparr>
         = [y1, y2, y3, y4, CHR ''-'', p1, p2, CHR ''-'', q1, q2]"
    using assms(1-9) by (rule strftime_date_fields)
  have h: "zfill 2 (dec (num [h1, h2])) = [h1, h2]" using assms(10,11) by (rule two_digits)
  have n: "zfill 2 (dec (num [n1, n2])) = [n1, n2]" using assms(12,13) by (rule two_digits)
  have s: "zfill 2 (dec (num [s1, s2])) = [s1, s2]" using assms(14,15) by (rule two_digits)
  show ?thesis unfolding strftime_datetime_def d by (simp add: h n s)
qed

lemma has_time_fields:
  assumes "is_digit h1" "is_digit h2" "is_digit n1" "is_digit n2" "is_digit s1" "is_digit s2"
  shows "has_time \<lparr>dt_year = y, dt_month = mo, dt_day = d,
            dt_hour = num [h1, h2], dt_minute = num [n1, n2], dt_second = num [s1, s2]\<rparr>
         \<longleftrightarrow> [h1, h2, CHR '':'', n1, n2, CHR '':'', s1, s2] \<noteq> ''00:00:00''"
  using two_digits_zero [OF assms(1,2)] two_digits_zero [OF assms(3,4)]
    two_digits_zero [OF assms(5,6)]
  by (auto simp: has_time_def)

text \<open>The date-only form.\<close>

lemma parse_dayfirst_date:
  assumes "is_digit y1" "is_digit y2" "is_digit y3" "is_digit y4"
    "is_digit m1" "is_digit m2" "is_digit d1" "is_digit d2"
  shows "parse_dayfirst [y1, y2, y3, y4, CHR ''-'', m1, m2, CHR ''-'', d1, d2] =
     (let dt = \<lparr>dt_year = num [y1, y2, y3, y4],
                 dt_month = (if num [d1, d2] \<le> 12 then num [d1, d2] else num [m1, m2]),
                 dt_day = (if num [d1, d2] \<le> 12 then num [m1, m2] else num [d1, d2]),
                 dt_hour = 0, dt_minute = 0, dt_second = 0\<rparr>
      in if valid_datetime dt then Some dt else None)"
  using assms
  by (simp add: parse_dayfirst_def datetime_form_def year_field_def month_field_def
      day_field_def Let_def)

lemma parse_dayfirst_datetime:
  assumes "is_digit y1" "is_digit y2" "is_digit y3" "is_digit y4"
    "is_digit m1" "is_digit m2" "is_digit d1" "is_digit d2"
    "is_digit h1" "is_digit h2" "is_digit n1" "is_digit n2" "is_digit s1" "is_digit s2"
  shows "parse_dayfirst [y1, y2, y3, y4, CHR ''-'', m1, m2, CHR ''-'', d1, d2,
            CHR '' '', h1, h2, CHR '':'', n1, n2, CHR '':'', s1, s2] =
     (let dt = \<lparr>dt_year = num [y1, y2, y3, y4],
                 dt_month = (if num [d1, d2] \<le> 12 then num [d1, d2] else num [m1, m2]),
                 dt_day = (if num [d1, d2] \<le> 12 then num [m1, m2] else num [d1, d2]),
                 dt_hour = num [h1, h2], dt_minute = num [n1, n2], dt_second = num [s1, s2]\<rparr>
      in if valid_datetime dt then Some dt else None)"
  using assms
  by (simp add: parse_dayfirst_def datetime_form_def year_field_def month_field_def
      day_field_def Let_def)

lemma not_digit_marks:
  "\<not> is_digit CHR ''-''" "\<not> is_digit CHR ''/''" "\<not> is_digit CHR '' ''" "\<not> is_digit CHR '':''"
  by (simp_all add: is_digit_def)

lemma digit_not_mark:
  "is_digit c \<Longrightarrow> c \<noteq> CHR ''-'' \<and> c \<noteq> CHR ''/'' \<and> c \<noteq> CHR '' '' \<and> c \<noteq> CHR '':''"
  using not_digit_marks by auto

lemma search_dmy_date:
  assumes "is_digit y1" "is_digit y2" "is_digit y3" "is_digit y4"
    "is_digit m1" "is_digit m2" "is_digit d1" "is_digit d2"
  shows "search_dmy [y1, y2, y3, y4, CHR ''-'', m1, m2, CHR ''-'', d1, d2] = None"
  using assms not_digit_marks
  by (simp add: match_dmy_def dmy_with_def digits_at_def char_at_def digit_not_mark)

lemma search_dmy_datetime:
  assumes "is_digit y1" "is_digit y2" "is_digit y3" "is_digit y4"
    "is_digit m1" "is_digit m2" "is_digit d1" "is_digit d2"
    "is_digit h1" "is_digit h2" "is_digit n1" "is_digit n2" "is_digit s1" "is_digit s2"
  shows "search_dmy [y1, y2, y3, y4, CHR ''-'', m1, m2, CHR ''-'', d1, d2,
           CHR '' '', h1, h2, CHR '':'', n1, n2, CHR '':'', s1, s2] = None"
  using assms not_digit_marks
  by (simp add: match_dmy_def dmy_with_def digits_at_def char_at_def digit_not_mark)

text \<open>
  The result of \<open>normalize_date\<close> on a string of the short form, written out in its
  characters.
\<close>

lemma normalize_date_short:
  assumes dg: "is_digit y1" "is_digit y2" "is_digit y3" "is_digit y4"
      "is_digit m1" "is_digit m2" "is_digit d1" "is_digit d2"
    and yr: "y1 \<noteq> CHR ''0''"
    and s: "s = [y1, y2, y3, y4, CHR ''-'', m1, m2, CHR ''-'', d1, d2]"
  shows "normalize_date parse_dayfirst s =
     Some (if parse_dayfirst s = None then s
           else if num [d1, d2] \<le> 12
           then [y1, y2, y3, y4, CHR ''-'', d1, d2, CHR ''-'', m1, m2]
           else s)"
proof -
  define dt where "dt = \<lparr>dt_year = num [y1, y2, y3, y4],
                 dt_month = (if num [d1, d2] \<le> 12 then num [d1, d2] else num [m1, m2]),
                 dt_day = (if num [d1, d2] \<le> 12 then num [m1, m2] else num [d1, d2]),
                 dt_hour = 0, dt_minute = 0, dt_second = 0\<rparr>"
  have "parse_dayfirst s = (if valid_datetime dt then Some dt else None)"
    unfolding s dt_def using parse_dayfirst_date [OF dg] by (simp only: Let_def)
  then have p: "parse_dayfirst s = (if valid_datetime dt then Some dt else None)" .
  have ne: "s \<noteq> []" by (subst s) (rule list.distinct)
  have nf: "search_dmy s = None" unfolding s using dg by (rule search_dmy_date)
  show ?thesis
  proof (cases "valid_datetime dt")
    case False
    with p have "parse_dayfirst s = None" by simp
    then show ?thesis using ne nf by (simp add: normalize_date_def)
  next
    case True
    with p have ps: "parse_dayfirst s = Some dt" by simp
    have nt: "\<not> has_time dt" by (simp add: has_time_def dt_def)
    have r: "normalize_date parse_dayfirst s = Some (strftime_date dt)"
      using ps nt ne by (simp add: normalize_date_def)
    show ?thesis
    proof (cases "num [d1, d2] \<le> 12")
      case True
      then have "dt = \<lparr>dt_year = num [y1, y2, y3, y4], dt_month = num [d1, d2],
          dt_day = num [m1, m2], dt_hour = 0, dt_minute = 0, dt_second = 0\<rparr>"
        by (simp add: dt_def)
      then have "strftime_date dt = [y1, y2, y3, y4, CHR ''-'', d1, d2, CHR ''-'', m1, m2]"
        using strftime_date_fields [OF dg(1-4) yr dg(7-8) dg(5-6)] by simp
      with r ps True show ?thesis by simp
    next
      case False
      then have "dt = \<lparr>dt_year = num [y1, y2, y3, y4], dt_month = num [m1, m2],
          dt_day = num [d1, d2], dt_hour = 0, dt_minute = 0, dt_second = 0\<rparr>"
        by (simp add: dt_def)
      then have "strftime_date dt = [y1, y2, y3, y4, CHR ''-'', m1, m2, CHR ''-'', d1, d2]"
        using strftime_date_fields [OF dg(1-4) yr dg(5-8)] by simp
      with r ps False show ?thesis by (simp add: s)
    qed
  qed
qed

text \<open>The same for the long form.\<close>

lemma normalize_date_long:
  assumes dg: "is_digit y1" "is_digit y2" "is_digit y3" "is_digit y4"
      "is_digit m1" "is_digit m2" "is_digit d1" "is_digit d2"
    and tg: "is_digit h1" "is_digit h2" "is_digit n1" "is_digit n2" "is_digit s1" "is_digit s2"
    and yr: "y1 \<noteq> CHR ''0''"
    and s: "s = [y1, y2, y3, y4, CHR ''-'', m1, m2, CHR ''-'', d1, d2,
           CHR '' '', h1, h2, CHR '':'', n1, n2, CHR '':'', s1, s2]"
  shows "normalize_date parse_dayfirst s =
     Some (if parse_dayfirst s = None then s
           else (if num [d1, d2] \<le> 12
                 then [y1, y2, y3, y4, CHR ''-'', d1, d2, CHR ''-'', m1, m2]
                 else [y1, y2, y3, y4, CHR ''-'', m1, m2, CHR ''-'', d1, d2])
              @ (if [h1, h2, CHR '':'', n1, n2, CHR '':'', s1, s2] = ''00:00:00'' then []
                 else [CHR '' '', h1, h2, CHR '':'', n1, n2, CHR '':'', s1, s2]))"
proof -
  define mo where "mo = (if num [d1, d2] \<le> 12 then [d1, d2] else [m1, m2])"
  define da where "da = (if num [d1, d2] \<le> 12 then [m1, m2] else [d1, d2])"
  obtain p1 p2 q1 q2 where pq: "mo = [p1, p2]" "da = [q1, q2]"
    and pqd: "is_digit p1" "is_digit p2" "is_digit q1" "is_digit q2"
    using dg by (cases "num [d1, d2] \<le> 12") (simp_all add: mo_def da_def)
  define dt where "dt = \<lparr>dt_year = num [y1, y2, y3, y4], dt_month = num [p1, p2],
      dt_day = num [q1, q2],
      dt_hour = num [h1, h2], dt_minute = num [n1, n2], dt_second = num [s1, s2]\<rparr>"
  have dt': "dt = \<lparr>dt_year = num [y1, y2, y3, y4],
                 dt_month = (if num [d1, d2] \<le> 12 then num [d1, d2] else num [m1, m2]),
                 dt_day = (if num [d1, d2] \<le> 12 then num [m1, m2] else num [d1, d2]),
                 dt_hour = num [h1, h2], dt_minute = num [n1, n2], dt_second = num [s1, s2]\<rparr>"
    using pq by (cases "num [d1, d2] \<le> 12") (simp_all add: dt_def mo_def da_def)
  have "parse_dayfirst s = (if valid_datetime dt then Some dt else None)"
    unfolding s dt' using parse_dayfirst_datetime [OF dg tg] by (simp only: Let_def)
  then have p: "parse_dayfirst s = (if valid_datetime dt then Some dt else None)" .
  have ne: "s \<noteq> []" by (subst s) (rule list.distinct)
  have nf: "search_dmy s = None" unfolding s using dg tg by (rule search_dmy_datetime)
  have date: "strftime_date dt = [y1, y2, y3, y4, CHR ''-'', p1, p2, CHR ''-'', q1, q2]"
    unfolding dt_def using dg(1-4) yr pqd by (rule strftime_date_fields)
  have full: "strftime_datetime dt = [y1, y2, y3, y4, CHR ''-'', p1, p2, CHR ''-'', q1, q2,
            CHR '' '', h1, h2, CHR '':'', n1, n2, CHR '':'', s1, s2]"
    unfolding dt_def using dg(1-4) yr pqd tg by (rule strftime_datetime_fields)
  have ht: "has_time dt \<longleftrightarrow> [h1, h2, CHR '':'', n1, n2, CHR '':'', s1, s2] \<noteq> ''00:00:00''"
    unfolding dt_def using tg by (rule has_time_fields)
  have swap: "(if num [d1, d2] \<le> 12
                 then [y1, y2, y3, y4, CHR ''-'', d1, d2, CHR ''-'', m1, m2]
                 else [y1, y2, y3, y4, CHR ''-'', m1, m2, CHR ''-'', d1, d2])
       = [y1, y2, y3, y4, CHR ''-'', p1, p2, CHR ''-'', q1, q2]"
    using pq by (cases "num [d1, d2] \<le> 12") (simp_all add: mo_def da_def)
  show ?thesis
  proof (cases "valid_datetime dt")
    case False
    with p have "parse_dayfirst s = None" by simp
    then show ?thesis using ne nf by (simp add: normalize_date_def)
  next
    case True
    with p have ps: "parse_dayfirst s = Some dt" by simp
    show ?thesis
    proof (cases "has_time dt")
      case True
      then have "normalize_date parse_dayfirst s = Some (strftime_datetime dt)"
        using ps ne by (simp add: normalize_date_def)
      moreover from True ht have "[h1, h2, CHR '':'', n1, n2, CHR '':'', s1, s2] \<noteq> ''00:00:00''"
        by blast
      ultimately show ?thesis unfolding swap full using ps by simp
    next
      case False
      then have "normalize_date parse_dayfirst s = Some (strftime_date dt)"
        using ps ne by (simp add: normalize_date_def)
      moreover from False ht have "[h1, h2, CHR '':'', n1, n2, CHR '':'', s1, s2] = ''00:00:00''"
        by blast
      ultimately show ?thesis unfolding swap date using ps by simp
    qed
  qed
qed

lemma normalize_date_date_form:
  assumes f: "date_form s" and yr: "hd s \<noteq> CHR ''0''"
  shows "normalize_date parse_dayfirst s = Some
       (if parse_dayfirst s = None then s
        else (if num (day_field s) \<le> 12 then swapped s else take 10 s)
             @ (if datetime_form s \<and> time_field s \<noteq> ''00:00:00'' then drop 10 s else []))
     \<and> (swapped s = take 10 s \<longleftrightarrow> day_field s = month_field s)
     \<and> \<not> datetime_form s \<and> take 10 s = s"
  using f
proof (rule date_form.elims(2))
  fix y1 y2 y3 y4 a m1 m2 b d1 d2
  assume s0: "s = [y1, y2, y3, y4, a, m1, m2, b, d1, d2]"
    and c: "is_digit y1 \<and> is_digit y2 \<and> is_digit y3 \<and> is_digit y4 \<and> a = CHR ''-''
      \<and> is_digit m1 \<and> is_digit m2 \<and> b = CHR ''-'' \<and> is_digit d1 \<and> is_digit d2"
  from c have dg: "is_digit y1" "is_digit y2" "is_digit y3" "is_digit y4"
      "is_digit m1" "is_digit m2" "is_digit d1" "is_digit d2" by simp_all
  from c s0 have s: "s = [y1, y2, y3, y4, CHR ''-'', m1, m2, CHR ''-'', d1, d2]" by simp
  from yr have y: "y1 \<noteq> CHR ''0''" by (simp add: s)
  have r: "normalize_date parse_dayfirst s =
     Some (if parse_dayfirst s = None then s
           else if num [d1, d2] \<le> 12
           then [y1, y2, y3, y4, CHR ''-'', d1, d2, CHR ''-'', m1, m2]
           else s)"
    by (rule normalize_date_short [OF dg y s])
  have g: "day_field s = [d1, d2]" "month_field s = [m1, m2]"
      "swapped s = [y1, y2, y3, y4, CHR ''-'', d1, d2, CHR ''-'', m1, m2]"
      "take 10 s = s" "\<not> datetime_form s"
    by (simp_all add: s day_field_def month_field_def year_field_def swapped_def
        datetime_form_def)
  have e: "swapped s = take 10 s \<longleftrightarrow> day_field s = month_field s"
    unfolding g(1-3) g(4) by (subst s) auto
  have "normalize_date parse_dayfirst s = Some
       (if parse_dayfirst s = None then s
        else (if num (day_field s) \<le> 12 then swapped s else take 10 s)
             @ (if datetime_form s \<and> time_field s \<noteq> ''00:00:00'' then drop 10 s else []))"
    unfolding r g(1-3) using g(4,5) by simp
  with e g(4,5) show ?thesis by blast
qed

lemma normalize_date_datetime_form:
  assumes f: "datetime_form s" and yr: "hd s \<noteq> CHR ''0''"
  shows "normalize_date parse_dayfirst s = Some
       (if parse_dayfirst s = None then s
        else (if num (day_field s) \<le> 12 then swapped s else take 10 s)
             @ (if datetime_form s \<and> time_field s \<noteq> ''00:00:00'' then drop 10 s else []))
     \<and> (swapped s = take 10 s \<longleftrightarrow> day_field s = month_field s)
     \<and> length s = 19 \<and> length (swapped s) = 10"
proof -
  from f have d: "date_form (take 10 s)" and t: "time_form (drop 10 s)"
    unfolding datetime_form_def by blast+
  have split: "s = take 10 s @ drop 10 s" by (simp only: append_take_drop_id)
  from d show ?thesis
  proof (rule date_form.elims(2))
    fix y1 y2 y3 y4 a m1 m2 b d1 d2
    assume hd: "take 10 s = [y1, y2, y3, y4, a, m1, m2, b, d1, d2]"
      and c: "is_digit y1 \<and> is_digit y2 \<and> is_digit y3 \<and> is_digit y4 \<and> a = CHR ''-''
        \<and> is_digit m1 \<and> is_digit m2 \<and> b = CHR ''-'' \<and> is_digit d1 \<and> is_digit d2"
    from t show ?thesis
    proof (rule time_form.elims(2))
      fix sp h1 h2 p n1 n2 q s1 s2
      assume tl: "drop 10 s = [sp, h1, h2, p, n1, n2, q, s1, s2]"
        and e: "sp = CHR '' '' \<and> is_digit h1 \<and> is_digit h2 \<and> p = CHR '':''
          \<and> is_digit n1 \<and> is_digit n2 \<and> q = CHR '':'' \<and> is_digit s1 \<and> is_digit s2"
      from c have dg: "is_digit y1" "is_digit y2" "is_digit y3" "is_digit y4"
        "is_digit m1" "is_digit m2" "is_digit d1" "is_digit d2" by simp_all
      from e have tg: "is_digit h1" "is_digit h2" "is_digit n1" "is_digit n2"
        "is_digit s1" "is_digit s2" by simp_all
      from c e have marks: "a = CHR ''-''" "b = CHR ''-''" "sp = CHR '' ''"
        "p = CHR '':''" "q = CHR '':''" by simp_all
      have "s = [y1, y2, y3, y4, a, m1, m2, b, d1, d2] @ [sp, h1, h2, p, n1, n2, q, s1, s2]"
        using split hd tl by simp
      then have s: "s = [y1, y2, y3, y4, CHR ''-'', m1, m2, CHR ''-'', d1, d2,
           CHR '' '', h1, h2, CHR '':'', n1, n2, CHR '':'', s1, s2]"
        by (simp add: marks)
      from yr have y: "y1 \<noteq> CHR ''0''" by (simp add: s)
      have r: "normalize_date parse_dayfirst s =
         Some (if parse_dayfirst s = None then s
           else (if num [d1, d2] \<le> 12
                 then [y1, y2, y3, y4, CHR ''-'', d1, d2, CHR ''-'', m1, m2]
                 else [y1, y2, y3, y4, CHR ''-'', m1, m2, CHR ''-'', d1, d2])
              @ (if [h1, h2, CHR '':'', n1, n2, CHR '':'', s1, s2] = ''00:00:00'' then []
                 else [CHR '' '', h1, h2, CHR '':'', n1, n2, CHR '':'', s1, s2]))"
        by (rule normalize_date_long [OF dg tg y s])
      have g: "day_field s = [d1, d2]" "month_field s = [m1, m2]"
        "swapped s = [y1, y2, y3, y4, CHR ''-'', d1, d2, CHR ''-'', m1, m2]"
        "take 10 s = [y1, y2, y3, y4, CHR ''-'', m1, m2, CHR ''-'', d1, d2]"
        "drop 10 s = [CHR '' '', h1, h2, CHR '':'', n1, n2, CHR '':'', s1, s2]"
        "time_field s = [h1, h2, CHR '':'', n1, n2, CHR '':'', s1, s2]"
        by (simp_all add: s day_field_def month_field_def year_field_def swapped_def
            time_field_def)
      have l: "length s = 19" "length (swapped s) = 10"
        unfolding g by (simp_all add: s)
      have q: "swapped s = take 10 s \<longleftrightarrow> day_field s = month_field s"
        unfolding g by auto
      have "normalize_date parse_dayfirst s = Some
       (if parse_dayfirst s = None then s
        else (if num (day_field s) \<le> 12 then swapped s else take 10 s)
             @ (if datetime_form s \<and> time_field s \<noteq> ''00:00:00'' then drop 10 s else []))"
        unfolding r g using f by simp
      with q l show ?thesis by blast
    qed
  qed
qed

text \<open>
  C5, as the code has it.  Take a string of the form \<^verbatim>\<open>YYYY-MM-DD\<close> or
  \<^verbatim>\<open>YYYY-MM-DD HH:MM:SS\<close> whose year does not start with 0, and the parser of
  dateutil with \<^verbatim>\<open>dayfirst=True\<close>.  When the parser rejects the string (no such month,
  day or time), the string comes back unchanged.  Otherwise the parser reads the
  third number as the month whenever it is at most 12, so the result has the month
  and day fields exchanged in that case and kept otherwise; the time is kept unless
  it is \<^verbatim>\<open>00:00:00\<close>, and dropped when it is.  So the string is a fixed point exactly
  when the parser rejects it, or when its day field is above 12 or equal to its
  month field and its time, if it has one, is not midnight.
\<close>

theorem normalize_date_on_normalized:
  assumes form: "date_form s \<or> datetime_form s" and year: "hd s \<noteq> CHR ''0''"
  shows "normalize_date parse_dayfirst s = Some
       (if parse_dayfirst s = None then s
        else (if num (day_field s) \<le> 12 then swapped s else take 10 s)
             @ (if datetime_form s \<and> time_field s \<noteq> ''00:00:00'' then drop 10 s else []))
     \<and> (normalize_date parse_dayfirst s = Some s \<longleftrightarrow>
          parse_dayfirst s = None
          \<or> ((12 < num (day_field s) \<or> day_field s = month_field s)
              \<and> \<not> (datetime_form s \<and> time_field s = ''00:00:00'')))"
proof -
  define date_part where "date_part = (if num (day_field s) \<le> 12 then swapped s else take 10 s)"
  define time_part where
    "time_part = (if datetime_form s \<and> time_field s \<noteq> ''00:00:00'' then drop 10 s else [])"
  have r: "normalize_date parse_dayfirst s
      = Some (if parse_dayfirst s = None then s else date_part @ time_part)"
    and e: "swapped s = take 10 s \<longleftrightarrow> day_field s = month_field s"
    and shape: "(\<not> datetime_form s \<and> take 10 s = s)
        \<or> (datetime_form s \<and> length s = 19 \<and> length (swapped s) = 10)"
    using form normalize_date_date_form [OF _ year] normalize_date_datetime_form [OF _ year]
    unfolding date_part_def time_part_def by blast+
  have f: "date_part = take 10 s \<longleftrightarrow> 12 < num (day_field s) \<or> day_field s = month_field s"
    using e by (auto simp add: date_part_def)
  have "date_part @ time_part = s \<longleftrightarrow>
      (12 < num (day_field s) \<or> day_field s = month_field s)
      \<and> \<not> (datetime_form s \<and> time_field s = ''00:00:00'')"
  proof (cases "datetime_form s")
    case False
    with shape have t: "take 10 s = s" by blast
    from False have "time_part = []" by (simp add: time_part_def)
    then have "date_part @ time_part = s \<longleftrightarrow> date_part = take 10 s" by (simp add: t)
    with f False show ?thesis by simp
  next
    case True
    with shape have l: "length s = 19" "length (swapped s) = 10" by blast+
    have fl: "length date_part = 10" using l by (simp add: date_part_def)
    show ?thesis
    proof (cases "time_field s = ''00:00:00''")
      case True
      then have "time_part = []" by (simp add: time_part_def)
      then have "length (date_part @ time_part) = 10" using fl by simp
      then have "date_part @ time_part \<noteq> s" using l(1) by auto
      with True \<open>datetime_form s\<close> show ?thesis by simp
    next
      case False
      with \<open>datetime_form s\<close> have "time_part = drop 10 s" by (simp add: time_part_def)
      then have "date_part @ time_part = s \<longleftrightarrow> date_part @ drop 10 s = take 10 s @ drop 10 s"
        by (simp only: append_take_drop_id)
      also have "\<dots> \<longleftrightarrow> date_part = take 10 s" by (rule append_same_eq)
      finally show ?thesis using f False by simp
    qed
  qed
  then have "normalize_date parse_dayfirst s = Some s \<longleftrightarrow>
          parse_dayfirst s = None
          \<or> ((12 < num (day_field s) \<or> day_field s = month_field s)
              \<and> \<not> (datetime_form s \<and> time_field s = ''00:00:00''))"
    unfolding r by auto
  moreover note r [unfolded date_part_def time_part_def]
  ultimately show ?thesis by blast
qed

theorem normalize_date_on_normalized_witness:
  "normalize_date parse_dayfirst ''2024-12-25'' = Some ''2024-12-25''
   \<and> normalize_date parse_dayfirst ''2024-12-25 00:00:30'' = Some ''2024-12-25 00:00:30''
   \<and> normalize_date parse_dayfirst ''2024-02-30 00:00:00'' = Some ''2024-02-30 00:00:00''
   \<and> normalize_date parse_dayfirst ''2024-01-05 10:20:30'' = Some ''2024-05-01 10:20:30''
   \<and> normalize_date parse_dayfirst ''2024-03-12 00:00:00'' = Some ''2024-12-03''"
proof -
  have forms: "date_form ''2024-12-25''" "datetime_form ''2024-12-25 00:00:30''"
    "datetime_form ''2024-02-30 00:00:00''" "datetime_form ''2024-01-05 10:20:30''"
    "datetime_form ''2024-03-12 00:00:00''"
    by code_simp+
  have years: "hd ''2024-12-25'' \<noteq> CHR ''0''" "hd ''2024-12-25 00:00:30'' \<noteq> CHR ''0''"
    "hd ''2024-02-30 00:00:00'' \<noteq> CHR ''0''" "hd ''2024-01-05 10:20:30'' \<noteq> CHR ''0''"
    "hd ''2024-03-12 00:00:00'' \<noteq> CHR ''0''"
    by simp_all
  have a: "normalize_date parse_dayfirst ''2024-12-25'' = Some ''2024-12-25''"
  proof -
    have "parse_dayfirst ''2024-12-25'' = None
          \<or> ((12 < num (day_field ''2024-12-25'')
               \<or> day_field ''2024-12-25'' = month_field ''2024-12-25'')
              \<and> \<not> (datetime_form ''2024-12-25''
                     \<and> time_field ''2024-12-25'' = ''00:00:00''))"
      by code_simp
    then show ?thesis
      using normalize_date_on_normalized [of "''2024-12-25''"] forms(1) years(1) by blast
  qed
  have b: "normalize_date parse_dayfirst ''2024-12-25 00:00:30'' = Some ''2024-12-25 00:00:30''"
  proof -
    have "parse_dayfirst ''2024-12-25 00:00:30'' = None
          \<or> ((12 < num (day_field ''2024-12-25 00:00:30'')
               \<or> day_field ''2024-12-25 00:00:30'' = month_field ''2024-12-25 00:00:30'')
              \<and> \<not> (datetime_form ''2024-12-25 00:00:30''
                     \<and> time_field ''2024-12-25 00:00:30'' = ''00:00:00''))"
      by code_simp
    then show ?thesis
      using normalize_date_on_normalized [of "''2024-12-25 00:00:30''"] forms(2) years(2)
      by blast
  qed
  have c: "normalize_date parse_dayfirst ''2024-02-30 00:00:00'' = Some ''2024-02-30 00:00:00''"
  proof -
    have "parse_dayfirst ''2024-02-30 00:00:00'' = None" by code_simp
    then show ?thesis
      using normalize_date_on_normalized [of "''2024-02-30 00:00:00''"] forms(3) years(3)
      by blast
  qed
  have d: "normalize_date parse_dayfirst ''2024-01-05 10:20:30'' = Some ''2024-05-01 10:20:30''"
  proof -
    have x: "(if parse_dayfirst ''2024-01-05 10:20:30'' = None then ''2024-01-05 10:20:30''
        else (if num (day_field ''2024-01-05 10:20:30'') \<le> 12
              then swapped ''2024-01-05 10:20:30'' else take 10 ''2024-01-05 10:20:30'')
             @ (if datetime_form ''2024-01-05 10:20:30''
                   \<and> time_field ''2024-01-05 10:20:30'' \<noteq> ''00:00:00''
                then drop 10 ''2024-01-05 10:20:30'' else []))
       = ''2024-05-01 10:20:30''"
      by code_simp
    from forms(4) years(4) show ?thesis
      using normalize_date_on_normalized [of "''2024-01-05 10:20:30''"]
      unfolding x by blast
  qed
  have e: "normalize_date parse_dayfirst ''2024-03-12 00:00:00'' = Some ''2024-12-03''"
  proof -
    have x: "(if parse_dayfirst ''2024-03-12 00:00:00'' = None then ''2024-03-12 00:00:00''
        else (if num (day_field ''2024-03-12 00:00:00'') \<le> 12
              then swapped ''2024-03-12 00:00:00'' else take 10 ''2024-03-12 00:00:00'')
             @ (if datetime_form ''2024-03-12 00:00:00''
                   \<and> time_field ''2024-03-12 00:00:00'' \<noteq> ''00:00:00''
                then drop 10 ''2024-03-12 00:00:00'' else []))
       = ''2024-12-03''"
      by code_simp
    from forms(5) years(5) show ?thesis
      using normalize_date_on_normalized [of "''2024-03-12 00:00:00''"]
      unfolding x by blast
  qed
  from a b c d e show ?thesis by blast
qed

text \<open>
  Three strings of the normalized forms that are not fixed points: midnight is
  dropped, a day of at most 12 changes places with the month, and a year below
  1000 loses its leading zeros.
\<close>

theorem normalize_date_counterexample:
  "datetime_form ''2024-01-15 00:00:00''
   \<and> normalize_date parse_dayfirst ''2024-01-15 00:00:00'' = Some ''2024-01-15''
   \<and> date_form ''2024-01-05''
   \<and> normalize_date parse_dayfirst ''2024-01-05'' = Some ''2024-05-01''
   \<and> date_form ''0099-01-15''
   \<and> normalize_date parse_dayfirst ''0099-01-15'' = Some ''99-01-15''"
  by code_simp

end
